theory Spec2Isabelle
  imports Main "HOL-Library.Sublist"
begin

section \<open>Data model of the Fetcher client (src/index.ts)\<close>

text \<open>
  The TypeScript enums \<open>HttpMethod\<close> and \<open>ResponseType\<close> are datatypes. A JavaScript
  call either returns a value or throws one: \<open>completion\<close>. Callbacks supplied by the
  caller (interceptors) run in a world \<open>'w\<close> that they may change; \<open>'x\<close> is the type of
  thrown values, \<open>'r\<close> the type of whatever a \<open>void\<close> callback returns at run time.
  The response and error interceptors are handed an object that they may write to: such
  a callback yields, besides what it returns or throws and the new world, the object as
  the call has left it, and that is what the next reader of the object sees.
  The parameter serializer is a pure function from the parameter mapping \<open>'p\<close> to the
  query string. A timeout is an integer number of milliseconds.
\<close>

datatype HttpMethod = GET | HEAD | POST | PUT | PATCH | DELETE | OPTIONS | TRACE

datatype ResponseType = JSON | FORM_DATA | TEXT | BLOB | ARRAY_BUFFER

datatype ('a, 'x) completion = Returns 'a | Throws 'x

text \<open>\<open>RequestHeaderValue = string | []\<close>: one value or a sequence of values.\<close>

datatype RequestHeaderValue = Single string | Several "string list"

text \<open>
  The platform's \<open>Headers\<close> object is the list of its entries in the order of the
  \<open>append\<close> calls. \<open>get\<close> compares names without regard to ASCII case and joins the
  values of all matching entries with a comma and a space.
\<close>

type_synonym Headers = "(string \<times> string) list"

definition headersAppend :: "string \<Rightarrow> string \<Rightarrow> Headers \<Rightarrow> Headers" where
  "headersAppend k v hs = hs @ [(k, v)]"

definition lowerChar :: "char \<Rightarrow> char" where
  "lowerChar c =
     (case map_of (zip ''ABCDEFGHIJKLMNOPQRSTUVWXYZ'' ''abcdefghijklmnopqrstuvwxyz'') c of
        None \<Rightarrow> c
      | Some l \<Rightarrow> l)"

fun joinValues :: "string list \<Rightarrow> string" where
  "joinValues [] = []"
| "joinValues [v] = v"
| "joinValues (v # vs) = v @ '', '' @ joinValues vs"

definition headersGet :: "Headers \<Rightarrow> string \<Rightarrow> string option" where
  "headersGet hs name =
     (case map snd (filter (\<lambda>e. map lowerChar (fst e) = map lowerChar name) hs) of
        [] \<Rightarrow> None
      | vs \<Rightarrow> Some (joinValues vs))"

text \<open>\<open>String.prototype.includes\<close>: the argument occurs as a contiguous substring.\<close>

definition stringIncludes :: "string \<Rightarrow> string \<Rightarrow> bool" where
  "stringIncludes s t = sublist t s"

record ('p, 'b) Request =
  url :: string
  headers :: Headers
  params :: 'p
  body :: 'b

text \<open>\<open>Response<D>\<close>; the field \<open>headers\<close> is named \<open>rheaders\<close> here.\<close>

record 'd Response =
  status :: int
  rheaders :: Headers
  data :: 'd

text \<open>\<open>ErrorResponse = Response<any> | string\<close>.\<close>

datatype 'd ErrorResponse = OfResponse "'d Response" | OfString string

type_synonym ('p, 'b, 'x, 'w) RequestInterceptor =
  "('p, 'b) Request \<Rightarrow> 'w \<Rightarrow> (('p, 'b) Request, 'x) completion \<times> 'w"

text \<open>
  A callback on a mutable argument: the result has what the call returned or threw, the
  argument as the call left it, and the world as the call left it.
\<close>

type_synonym ('a, 'r, 'x, 'w) Observer = "'a \<Rightarrow> 'w \<Rightarrow> ('r, 'x) completion \<times> 'a \<times> 'w"

type_synonym ('d, 'r, 'x, 'w) ResponseInterceptor = "('d Response, 'r, 'x, 'w) Observer"

text \<open>
  The type \<open>ErrorResponse\<close> of an error interceptor's argument also admits a string, but
  \<open>execute\<close> calls the error interceptors on the response object only, and a callback
  cannot turn the object it is handed into a string: an error interceptor is modelled by
  what it does to that object.
\<close>

type_synonym ('d, 'r, 'x, 'w) ErrorInterceptor = "('d Response, 'r, 'x, 'w) Observer"

record ('p, 'b, 'd, 'r, 'x, 'w) Fetcher =
  baseUrl :: "string option"
  paramsSerializer :: "'p \<Rightarrow> string"
  timeout :: int
  requestInterceptors :: "('p, 'b, 'x, 'w) RequestInterceptor list"
  responseInterceptors :: "('d, 'r, 'x, 'w) ResponseInterceptor list"
  errorInterceptors :: "('d, 'r, 'x, 'w) ErrorInterceptor list"

text \<open>
  \<open>RequestOptions\<close>: every field is optional, and so is the options argument itself.
  The \<open>headers\<close> object is the list of its entries in the order \<open>for ... in\<close> visits
  them.
\<close>

record RequestOptions =
  optTimeout :: "int option"
  optHeaders :: "(string \<times> RequestHeaderValue) list option"
  responseType :: "ResponseType option"

text \<open>\<open>options?.f\<close>: absent when the options are absent.\<close>

definition optional :: "RequestOptions option \<Rightarrow> (RequestOptions \<Rightarrow> 'a option) \<Rightarrow> 'a option" where
  "optional options f = (case options of None \<Rightarrow> None | Some opts \<Rightarrow> f opts)"

text \<open>
  What \<open>fetch\<close> resolves with: status, the \<open>ok\<close> flag, the headers, and a body that
  is decoded on demand by one of five methods, each of which yields the data or fails.
\<close>

datatype BodyReader = AsJson | AsFormData | AsText | AsBlob | AsArrayBuffer

record ('d, 'x) FetchResponse =
  fstatus :: int
  ok :: bool
  fheaders :: Headers
  readBody :: "BodyReader \<Rightarrow> ('d, 'x) completion"

section \<open>The cancellable handle\<close>

text \<open>
  A rejection carries either an \<open>ErrorResponse\<close> (the string \<open>timeout\<close> is one) or a
  value caught by \<open>.catch(reject)\<close>. A promise settles once: later calls of
  \<open>resolve\<close> and \<open>reject\<close> change nothing.
\<close>

datatype ('d, 'x) Rejection = Reason "'d ErrorResponse" | Fault 'x

datatype ('d, 'x) Settlement = Resolved "'d Response" | Rejected "('d, 'x) Rejection"

datatype Timer = NoTimer | Pending int | Fired | Cleared

datatype ('d, 'x) Phase =
    AwaitFetch
  | AwaitBody "('d, 'x) FetchResponse" BodyReader
  | Finished

record ('p, 'b, 'd, 'x, 'w) Handle =
  fetchUrl :: string
  fetchInit :: "('p, 'b) Request"
  fetchMethod :: HttpMethod
  timer :: Timer
  aborted :: bool
  abortCalls :: nat
  canceled :: bool
  settled :: "('d, 'x) Settlement option"
  phase :: "('d, 'x) Phase"
  world :: 'w

definition resolve ::
  "'d Response \<Rightarrow> ('p, 'b, 'd, 'x, 'w) Handle \<Rightarrow> ('p, 'b, 'd, 'x, 'w) Handle" where
  "resolve v h = (if settled h = None then h\<lparr>settled := Some (Resolved v)\<rparr> else h)"

definition reject ::
  "('d, 'x) Rejection \<Rightarrow> ('p, 'b, 'd, 'x, 'w) Handle \<Rightarrow> ('p, 'b, 'd, 'x, 'w) Handle" where
  "reject e h = (if settled h = None then h\<lparr>settled := Some (Rejected e)\<rparr> else h)"

text \<open>\<open>abortController.abort()\<close>; the calls are counted.\<close>

definition abort :: "('p, 'b, 'd, 'x, 'w) Handle \<Rightarrow> ('p, 'b, 'd, 'x, 'w) Handle" where
  "abort h = h\<lparr>aborted := True, abortCalls := Suc (abortCalls h)\<rparr>"

text \<open>\<open>timeoutTimeout && clearTimeout(timeoutTimeout)\<close>: only a pending timer changes.\<close>

definition clearTimer :: "('p, 'b, 'd, 'x, 'w) Handle \<Rightarrow> ('p, 'b, 'd, 'x, 'w) Handle" where
  "clearTimer h = (case timer h of Pending d \<Rightarrow> h\<lparr>timer := Cleared\<rparr> | _ \<Rightarrow> h)"

section \<open>execute: the synchronous part (lines 108 to 152)\<close>

fun appendEach :: "string \<Rightarrow> string list \<Rightarrow> Headers \<Rightarrow> Headers" where
  "appendEach k [] hs = hs"
| "appendEach k (v # vs) hs = appendEach k vs (headersAppend k v hs)"

fun buildHeaders :: "(string \<times> RequestHeaderValue) list \<Rightarrow> Headers \<Rightarrow> Headers" where
  "buildHeaders [] hs = hs"
| "buildHeaders ((k, Single v) # rest) hs = buildHeaders rest (headersAppend k v hs)"
| "buildHeaders ((k, Several vs) # rest) hs = buildHeaders rest (appendEach k vs hs)"

text \<open>\<open>s.replace(/\/$/, "")\<close> and \<open>s.replace(/^\//, "")\<close>: at most one slash goes.\<close>

definition stripTrailingSlash :: "string \<Rightarrow> string" where
  "stripTrailingSlash s = (if s \<noteq> [] \<and> last s = CHR ''/'' then butlast s else s)"

definition stripLeadingSlash :: "string \<Rightarrow> string" where
  "stripLeadingSlash s = (case s of [] \<Rightarrow> [] | c # t \<Rightarrow> if c = CHR ''/'' then t else s)"

definition joinUrl :: "string option \<Rightarrow> string \<Rightarrow> string" where
  "joinUrl base path =
     stripTrailingSlash (case base of None \<Rightarrow> [] | Some b \<Rightarrow> b) @ ''/'' @ stripLeadingSlash path"

definition withQuery :: "string \<Rightarrow> string \<Rightarrow> string" where
  "withQuery u paramString = (if paramString \<noteq> [] then u @ ''?'' @ paramString else u)"

fun foldRequest ::
  "('p, 'b, 'x, 'w) RequestInterceptor list \<Rightarrow> ('p, 'b) Request \<Rightarrow> 'w
     \<Rightarrow> (('p, 'b) Request, 'x) completion \<times> 'w" where
  "foldRequest [] request w = (Returns request, w)"
| "foldRequest (f # fs) request w =
     (case f request w of
        (Returns request', w') \<Rightarrow> foldRequest fs request' w'
      | (Throws x, w') \<Rightarrow> (Throws x, w'))"

text \<open>The request assembled at line 132, before any interceptor has seen it.\<close>

definition assembleRequest ::
  "('p, 'b, 'd, 'r, 'x, 'w) Fetcher \<Rightarrow> string \<Rightarrow> 'p \<Rightarrow> 'b \<Rightarrow> RequestOptions option
     \<Rightarrow> ('p, 'b) Request" where
  "assembleRequest c path ps bd options =
     (let headersObject = (case optional options optHeaders of None \<Rightarrow> [] | Some hs \<Rightarrow> hs);
          hdrs = buildHeaders headersObject [];
          u = joinUrl (baseUrl c) path;
          paramString = paramsSerializer c ps
      in \<lparr>url = withQuery u paramString, headers = hdrs, params = ps, body = bd\<rparr>)"

definition effectiveTimeout ::
  "('p, 'b, 'd, 'r, 'x, 'w) Fetcher \<Rightarrow> RequestOptions option \<Rightarrow> int" where
  "effectiveTimeout c options =
     (case optional options optTimeout of None \<Rightarrow> timeout c | Some t \<Rightarrow> t)"

text \<open>
  The executor of \<open>new CancelablePromise\<close> (lines 139 to 152) runs at once: it arms the
  timer when \<open>timeout >= 0\<close>, registers the cancel handler and calls \<open>fetch\<close>.
\<close>

definition newPromise ::
  "int \<Rightarrow> HttpMethod \<Rightarrow> ('p, 'b) Request \<Rightarrow> 'w \<Rightarrow> ('p, 'b, 'd, 'x, 'w) Handle" where
  "newPromise t method request w =
     \<lparr>fetchUrl = url request, fetchInit = request, fetchMethod = method,
      timer = (if t \<ge> 0 then Pending t else NoTimer),
      aborted = False, abortCalls = 0, canceled = False, settled = None,
      phase = AwaitFetch, world = w\<rparr>"

text \<open>
  What the call of \<open>execute\<close> itself does: it throws (the rejected promise made by
  \<open>CancelablePromise.reject("canceled")\<close>, or what a request interceptor threw), or it
  returns the handle, with the network call issued.
\<close>

datatype 'x Thrown = CanceledRejection | Raised 'x

datatype ('p, 'b, 'd, 'x, 'w) Outcome =
    Threw "'x Thrown" 'w
  | Started "('p, 'b, 'd, 'x, 'w) Handle"

text \<open>Lines 136 to 139: the check of \<open>abortController.signal.aborted\<close> and what follows.\<close>

definition preflight ::
  "bool \<Rightarrow> int \<Rightarrow> HttpMethod \<Rightarrow> ('p, 'b) Request \<Rightarrow> 'w \<Rightarrow> ('p, 'b, 'd, 'x, 'w) Outcome" where
  "preflight signalAborted t method request w =
     (if signalAborted then Threw CanceledRejection w
      else Started (newPromise t method request w))"

text \<open>
  \<open>new AbortController()\<close>: the signal of a fresh controller is not aborted. The
  controller is a local constant of \<open>execute\<close>; the request interceptors are handed the
  request only, so nothing that runs between its creation and the check can reach it.
\<close>

definition newAbortController :: bool where
  "newAbortController = False"

definition execute ::
  "('p, 'b, 'd, 'r, 'x, 'w) Fetcher \<Rightarrow> HttpMethod \<Rightarrow> string \<Rightarrow> 'p \<Rightarrow> 'b
     \<Rightarrow> RequestOptions option \<Rightarrow> 'w \<Rightarrow> ('p, 'b, 'd, 'x, 'w) Outcome" where
  "execute c method path ps bd options w =
     (let t = effectiveTimeout c options;
          abortController = newAbortController;
          request = assembleRequest c path ps bd options
      in case foldRequest (requestInterceptors c) request w of
           (Throws x, w') \<Rightarrow> Threw (Raised x) w'
         | (Returns request', w') \<Rightarrow> preflight abortController t method request' w')"

section \<open>execute: the callbacks (lines 143 to 205)\<close>

text \<open>
  A \<open>for ... of\<close> loop that calls each interceptor on the same object and drops what
  it returns. Every interceptor finds the object as the earlier ones have left it. A
  throw ends the loop; the value thrown is handed on. The result has the object as the
  loop has left it.
\<close>

fun forEachInterceptor ::
  "('a, 'r, 'x, 'w) Observer list \<Rightarrow> 'a \<Rightarrow> 'w \<Rightarrow> 'x option \<times> 'a \<times> 'w" where
  "forEachInterceptor [] v w = (None, v, w)"
| "forEachInterceptor (f # fs) v w =
     (case f v w of
        (Returns r, v', w') \<Rightarrow> forEachInterceptor fs v' w'
      | (Throws x, v', w') \<Rightarrow> (Some x, v', w'))"

text \<open>Lines 156 to 178: which method of the fetch response decodes the body.\<close>

fun readerOf :: "ResponseType \<Rightarrow> BodyReader" where
  "readerOf JSON = AsJson"
| "readerOf FORM_DATA = AsFormData"
| "readerOf TEXT = AsText"
| "readerOf BLOB = AsBlob"
| "readerOf ARRAY_BUFFER = AsArrayBuffer"

definition chooseReader :: "RequestOptions option \<Rightarrow> Headers \<Rightarrow> BodyReader" where
  "chooseReader options hs =
     (case optional options responseType of
        Some rt \<Rightarrow> readerOf rt
      | None \<Rightarrow>
          (case headersGet hs ''Content-Type'' of
             None \<Rightarrow> AsText
           | Some ct \<Rightarrow> if stringIncludes ct ''json'' then AsJson else AsText))"

text \<open>Line 180: the test that separates the two branches.\<close>

definition succeeded :: "('d, 'x) FetchResponse \<Rightarrow> bool" where
  "succeeded fr = (ok fr \<and> fstatus fr < 300 \<and> fstatus fr \<ge> 200)"

text \<open>The object literal \<open>{status, data, headers: fetchResponse.headers}\<close> of both branches.\<close>

definition responseOf :: "('d, 'x) FetchResponse \<Rightarrow> 'd \<Rightarrow> 'd Response" where
  "responseOf fr d = \<lparr>status = fstatus fr, rheaders = fheaders fr, data = d\<rparr>"

text \<open>
  Lines 179 to 201: the callback of \<open>dataPromise.then\<close>; whatever it throws goes to
  \<open>.catch(reject)\<close>. The object that was handed to the interceptors is the one passed
  to \<open>resolve\<close> or \<open>reject\<close>, with what they have written to it.
\<close>

definition onData ::
  "('p, 'b, 'd, 'r, 'x, 'w) Fetcher \<Rightarrow> ('d, 'x) FetchResponse \<Rightarrow> 'd
     \<Rightarrow> ('p, 'b, 'd, 'x, 'w) Handle \<Rightarrow> ('p, 'b, 'd, 'x, 'w) Handle" where
  "onData c fr d h =
     (if succeeded fr then
        (let response = responseOf fr d
         in case forEachInterceptor (responseInterceptors c) response (world h) of
              (None, response', w') \<Rightarrow> resolve response' (h\<lparr>world := w'\<rparr>)
            | (Some x, response', w') \<Rightarrow> reject (Fault x) (h\<lparr>world := w'\<rparr>))
      else
        (let errorResponse = responseOf fr d
         in case forEachInterceptor (errorInterceptors c) errorResponse (world h) of
              (None, errorResponse', w') \<Rightarrow>
                reject (Reason (OfResponse errorResponse')) (h\<lparr>world := w'\<rparr>)
            | (Some x, errorResponse', w') \<Rightarrow> reject (Fault x) (h\<lparr>world := w'\<rparr>)))"

text \<open>
  What can happen to a handle after \<open>execute\<close> has returned it: the timer fires, the
  caller cancels, \<open>fetch\<close> settles, the body promise settles. The transport is free to
  settle in any order with the other events.
\<close>

datatype ('d, 'x) Event =
    TimerFires
  | Cancel
  | FetchResolves "('d, 'x) FetchResponse"
  | FetchRejects 'x
  | BodySettles

text \<open>Lines 143 to 146: the callback of \<open>setTimeout\<close>.\<close>

definition onTimeout :: "('p, 'b, 'd, 'x, 'w) Handle \<Rightarrow> ('p, 'b, 'd, 'x, 'w) Handle" where
  "onTimeout h = reject (Reason (OfString ''timeout'')) (abort h)"

text \<open>
  Lines 148 to 151: the handler given to \<open>onCancel\<close>. The promise library runs it on the
  first \<open>cancel()\<close> only.
\<close>

definition onCancel :: "('p, 'b, 'd, 'x, 'w) Handle \<Rightarrow> ('p, 'b, 'd, 'x, 'w) Handle" where
  "onCancel h = clearTimer (abort h)"

text \<open>
  Lines 152 to 205. The callback of \<open>fetch(...).then\<close> picks the decoding and returns
  without waiting for the body, so \<open>finally\<close> clears the timer as soon as the response
  has arrived.
\<close>

definition step ::
  "('p, 'b, 'd, 'r, 'x, 'w) Fetcher \<Rightarrow> RequestOptions option \<Rightarrow> ('d, 'x) Event
     \<Rightarrow> ('p, 'b, 'd, 'x, 'w) Handle \<Rightarrow> ('p, 'b, 'd, 'x, 'w) Handle" where
  "step c options ev h =
     (case ev of
        TimerFires \<Rightarrow>
          (case timer h of Pending t \<Rightarrow> onTimeout (h\<lparr>timer := Fired\<rparr>) | _ \<Rightarrow> h)
      | Cancel \<Rightarrow> (if canceled h then h else onCancel (h\<lparr>canceled := True\<rparr>))
      | FetchResolves fr \<Rightarrow>
          (case phase h of
             AwaitFetch \<Rightarrow>
               clearTimer (h\<lparr>phase := AwaitBody fr (chooseReader options (fheaders fr))\<rparr>)
           | _ \<Rightarrow> h)
      | FetchRejects x \<Rightarrow>
          (case phase h of
             AwaitFetch \<Rightarrow> clearTimer (reject (Fault x) (h\<lparr>phase := Finished\<rparr>))
           | _ \<Rightarrow> h)
      | BodySettles \<Rightarrow>
          (case phase h of
             AwaitBody fr reader \<Rightarrow>
               (case readBody fr reader of
                  Returns d \<Rightarrow> onData c fr d (h\<lparr>phase := Finished\<rparr>)
                | Throws x \<Rightarrow> reject (Fault x) (h\<lparr>phase := Finished\<rparr>))
           | _ \<Rightarrow> h))"

definition run ::
  "('p, 'b, 'd, 'r, 'x, 'w) Fetcher \<Rightarrow> RequestOptions option \<Rightarrow> ('d, 'x) Event list
     \<Rightarrow> ('p, 'b, 'd, 'x, 'w) Handle \<Rightarrow> ('p, 'b, 'd, 'x, 'w) Handle" where
  "run c options evs h = foldl (\<lambda>s ev. step c options ev s) h evs"

section \<open>The earlier variant of execute (src/unnamed/part_000)\<close>

text \<open>
  Lines 106 to 138 of the earlier, \<open>async\<close> variant: the same header loop, a timer armed
  before the URL is built when \<open>timeout <= 0\<close>, the same URL and the same interceptor
  loop. The result lists the delays of the timers armed and gives the request that
  \<open>fetch\<close> is then called with (or what an interceptor threw).
\<close>

fun legacyAppendEach :: "string \<Rightarrow> string list \<Rightarrow> Headers \<Rightarrow> Headers" where
  "legacyAppendEach k [] hs = hs"
| "legacyAppendEach k (v # vs) hs = legacyAppendEach k vs (headersAppend k v hs)"

fun legacyBuildHeaders :: "(string \<times> RequestHeaderValue) list \<Rightarrow> Headers \<Rightarrow> Headers" where
  "legacyBuildHeaders [] hs = hs"
| "legacyBuildHeaders ((k, hv) # rest) hs =
     legacyBuildHeaders rest
       (case hv of Single v \<Rightarrow> headersAppend k v hs | Several vs \<Rightarrow> legacyAppendEach k vs hs)"

fun legacyFoldRequest ::
  "('p, 'b, 'x, 'w) RequestInterceptor list \<Rightarrow> ('p, 'b) Request \<Rightarrow> 'w
     \<Rightarrow> (('p, 'b) Request, 'x) completion \<times> 'w" where
  "legacyFoldRequest [] request w = (Returns request, w)"
| "legacyFoldRequest (f # fs) request w =
     (case f request w of
        (Returns request', w') \<Rightarrow> legacyFoldRequest fs request' w'
      | (Throws x, w') \<Rightarrow> (Throws x, w'))"

record ('p, 'b, 'x, 'w) LegacyPrefix =
  legacyTimers :: "int list"
  legacyRequest :: "(('p, 'b) Request, 'x) completion \<times> 'w"

definition legacyExecute ::
  "('p, 'b, 'd, 'r, 'x, 'w) Fetcher \<Rightarrow> string \<Rightarrow> 'p \<Rightarrow> 'b \<Rightarrow> RequestOptions option \<Rightarrow> 'w
     \<Rightarrow> ('p, 'b, 'x, 'w) LegacyPrefix" where
  "legacyExecute c path ps bd options w =
     (let headersObject = (case optional options optHeaders of None \<Rightarrow> [] | Some hs \<Rightarrow> hs);
          hdrs = legacyBuildHeaders headersObject [];
          t = (case optional options optTimeout of None \<Rightarrow> timeout c | Some t' \<Rightarrow> t');
          armed = (if t \<le> 0 then [t] else []);
          b = (case baseUrl c of None \<Rightarrow> [] | Some s \<Rightarrow> s);
          u = stripTrailingSlash b @ ''/'' @ stripLeadingSlash path;
          paramString = paramsSerializer c ps;
          u' = (if paramString \<noteq> [] then u @ ''?'' @ paramString else u);
          request = \<lparr>url = u', headers = hdrs, params = ps, body = bd\<rparr>
      in \<lparr>legacyTimers = armed,
          legacyRequest = legacyFoldRequest (requestInterceptors c) request w\<rparr>)"

text \<open>
  The same two observations on the current variant: the timers armed by the time
  \<open>fetch\<close> is called, and the request \<open>fetch\<close> is called with.
\<close>

definition timersArmed :: "('p, 'b, 'd, 'x, 'w) Outcome \<Rightarrow> int list" where
  "timersArmed out =
     (case out of
        Threw e w \<Rightarrow> []
      | Started h \<Rightarrow> (case timer h of Pending t \<Rightarrow> [t] | _ \<Rightarrow> []))"

definition constructRequest ::
  "('p, 'b, 'd, 'r, 'x, 'w) Fetcher \<Rightarrow> string \<Rightarrow> 'p \<Rightarrow> 'b \<Rightarrow> RequestOptions option \<Rightarrow> 'w
     \<Rightarrow> (('p, 'b) Request, 'x) completion \<times> 'w" where
  "constructRequest c path ps bd options w =
     foldRequest (requestInterceptors c) (assembleRequest c path ps bd options) w"

section \<open>Notions used to state the properties\<close>

text \<open>
  Feeding the result of the interceptors so far to the next one: the step of the left
  fold over the request interceptors.
\<close>

definition feed ::
  "(('p, 'b) Request, 'x) completion \<times> 'w \<Rightarrow> ('p, 'b, 'x, 'w) RequestInterceptor
     \<Rightarrow> (('p, 'b) Request, 'x) completion \<times> 'w" where
  "feed acc f = (case acc of (Returns request, w) \<Rightarrow> f request w | (Throws x, w) \<Rightarrow> (Throws x, w))"

text \<open>An interceptor that only computes the next request.\<close>

definition pureInterceptor ::
  "(('p, 'b) Request \<Rightarrow> ('p, 'b) Request) \<Rightarrow> ('p, 'b, 'x, 'w) RequestInterceptor" where
  "pureInterceptor g request w = (Returns (g request), w)"

text \<open>The same callback, returning something else whenever it returns.\<close>

definition replaceReturn ::
  "('a \<Rightarrow> 'r \<Rightarrow> 'r) \<Rightarrow> ('a, 'r, 'x, 'w) Observer \<Rightarrow> ('a, 'r, 'x, 'w) Observer" where
  "replaceReturn g f v w =
     (case f v w of
        (Returns r, v', w') \<Rightarrow> (Returns (g v r), v', w')
      | (Throws x, v', w') \<Rightarrow> (Throws x, v', w'))"

text \<open>
  The object and the world after all callbacks of a list have run on the object, in the
  order of the list, each on the object and the world that the one before has left.
\<close>

definition afterAll :: "('a, 'r, 'x, 'w) Observer list \<Rightarrow> 'a \<Rightarrow> 'w \<Rightarrow> 'a \<times> 'w" where
  "afterAll fs v w = foldl (\<lambda>s f. snd (f (fst s) (snd s))) (v, w) fs"

text \<open>
  What holds of every handle that \<open>execute\<close> has returned, whatever happened to it:
  \<open>abort\<close> has been called once by the cancel handler if it ran and once by the timer
  if it fired; a fired timer has settled the handle; after a cancel no timer is pending.
\<close>

definition consistent :: "('p, 'b, 'd, 'x, 'w) Handle \<Rightarrow> bool" where
  "consistent h =
     (abortCalls h = (if canceled h then 1 else 0) + (if timer h = Fired then 1 else 0)
      \<and> (if timer h = Fired then settled h \<noteq> None else True)
      \<and> (if canceled h then (case timer h of Pending t \<Rightarrow> False | _ \<Rightarrow> True) else True)
      \<and> aborted h = (0 < abortCalls h))"

text \<open>The state of a handle once it has been cancelled before the timer could fire.\<close>

definition disarmed :: "('p, 'b, 'd, 'x, 'w) Handle \<Rightarrow> bool" where
  "disarmed h =
     (canceled h \<and> aborted h \<and> abortCalls h = 1
      \<and> (case timer h of Pending t \<Rightarrow> False | Fired \<Rightarrow> False | _ \<Rightarrow> True)
      \<and> settled h \<noteq> Some (Rejected (Reason (OfString ''timeout''))))"

section \<open>The wording of the specification, for comparison\<close>

text \<open>
  The content of a base URL is the base without its trailing slashes, the content of a
  path is the path without its leading slashes; the specified URL has the two contents
  with one slash between them.
\<close>

definition baseContent :: "string option \<Rightarrow> string" where
  "baseContent base =
     rev (dropWhile (\<lambda>ch. ch = CHR ''/'') (rev (case base of None \<Rightarrow> [] | Some b \<Rightarrow> b)))"

definition pathContent :: "string \<Rightarrow> string" where
  "pathContent path = dropWhile (\<lambda>ch. ch = CHR ''/'') path"

definition specJoinedUrl :: "string option \<Rightarrow> string \<Rightarrow> string" where
  "specJoinedUrl base path = baseContent base @ ''/'' @ pathContent path"

section \<open>A sample client, to run the model on\<close>

text \<open>
  Parameters are a list of pairs, the body is an optional string, decoded data and thrown
  values are strings, the observers return responses, and the world is the log that the
  sample interceptors write.
\<close>

fun sampleSerializer :: "(string \<times> string) list \<Rightarrow> string" where
  "sampleSerializer [] = []"
| "sampleSerializer [(k, v)] = k @ ''='' @ v"
| "sampleSerializer ((k, v) # rest) = k @ ''='' @ v @ ''&'' @ sampleSerializer rest"

definition tagWith ::
  "string \<Rightarrow> ((string \<times> string) list, string option, string, string list) RequestInterceptor" where
  "tagWith t request w =
     (Returns (request\<lparr>headers := headersAppend ''X-Tag'' t (headers request)\<rparr>), w @ [t])"

text \<open>
  An observer that writes its name to the log, leaves its argument as it is and returns a
  response of its own; one that throws; and one that writes a status to the object it is
  handed and adds its name to the data of the object.
\<close>

definition logAs :: "string \<Rightarrow> ('a, string Response, string, string list) Observer" where
  "logAs name v w = (Returns \<lparr>status = 200, rheaders = [], data = name\<rparr>, v, w @ [name])"

definition failWith :: "string \<Rightarrow> ('a, string Response, string, string list) Observer" where
  "failWith e v w = (Throws e, v, w)"

definition writeResponse ::
  "int \<Rightarrow> string \<Rightarrow> (string Response, string Response, string, string list) Observer" where
  "writeResponse s name v w =
     (Returns \<lparr>status = 200, rheaders = [], data = name\<rparr>,
      v\<lparr>status := s, data := data v @ name\<rparr>, w @ [name])"

definition addTag ::
  "string \<Rightarrow> ((string \<times> string) list, string option) Request
     \<Rightarrow> ((string \<times> string) list, string option) Request" where
  "addTag t request = request\<lparr>headers := headersAppend ''X-Tag'' t (headers request)\<rparr>"

definition sampleFetcher ::
  "((string \<times> string) list, string option, string, string Response, string, string list)
     Fetcher" where
  "sampleFetcher =
     \<lparr>baseUrl = Some ''https://api.test/'', paramsSerializer = sampleSerializer,
      timeout = 30000,
      requestInterceptors = [tagWith ''a'', tagWith ''b''],
      responseInterceptors = [logAs ''r1'', logAs ''r2''],
      errorInterceptors = [logAs ''e1'', logAs ''e2'']\<rparr>"

definition sampleWriter ::
  "((string \<times> string) list, string option, string, string Response, string, string list)
     Fetcher" where
  "sampleWriter =
     sampleFetcher
       \<lparr>responseInterceptors := [writeResponse 201 ''r1'', writeResponse 201 ''r2''],
        errorInterceptors := [writeResponse 200 ''e1'', writeResponse 200 ''e2'']\<rparr>"

definition sampleRequest :: "((string \<times> string) list, string option) Request" where
  "sampleRequest =
     \<lparr>url = ''https://api.test/v1/x'',
      headers = [(''X-Tag'', ''a''), (''X-Tag'', ''b'')], params = [], body = None\<rparr>"

definition sampleHandle ::
  "((string \<times> string) list, string option, string, string, string list) Handle" where
  "sampleHandle = newPromise 30000 GET sampleRequest [''a'', ''b'']"

definition sampleBody :: "BodyReader \<Rightarrow> (string, string) completion" where
  "sampleBody reader =
     (case reader of
        AsJson \<Rightarrow> Returns ''{}''
      | AsText \<Rightarrow> Returns ''{}''
      | AsBlob \<Rightarrow> Returns ''blob''
      | _ \<Rightarrow> Throws ''TypeError'')"

definition sampleResponse :: "int \<Rightarrow> bool \<Rightarrow> (string, string) FetchResponse" where
  "sampleResponse s k =
     \<lparr>fstatus = s, ok = k, fheaders = [(''content-type'', ''application/json'')],
      readBody = sampleBody\<rparr>"

section \<open>Evaluation\<close>

lemmas sample_defs = sampleFetcher_def sampleRequest_def sampleHandle_def sampleBody_def
  sampleResponse_def tagWith_def logAs_def failWith_def addTag_def sampleWriter_def
  writeResponse_def

lemmas exec_defs = execute_def assembleRequest_def effectiveTimeout_def optional_def
  joinUrl_def withQuery_def stripTrailingSlash_def stripLeadingSlash_def preflight_def
  newAbortController_def newPromise_def headersAppend_def

lemmas step_defs = step_def onData_def onTimeout_def onCancel_def clearTimer_def abort_def
  reject_def resolve_def succeeded_def responseOf_def chooseReader_def headersGet_def
  lowerChar_def stringIncludes_def sublist_Cons_right

lemma execute_sample: "execute sampleFetcher GET ''/v1/x'' [] None None [] = Started sampleHandle"
  by (simp add: sample_defs exec_defs)

section \<open>The URL\<close>

lemma stripTrailingSlash_content:
  assumes "\<not> suffix ''//'' b"
  shows "stripTrailingSlash b = rev (dropWhile (\<lambda>ch. ch = CHR ''/'') (rev b))"
proof (cases b rule: rev_cases)
  case Nil
  then show ?thesis by (simp add: stripTrailingSlash_def)
next
  case (snoc b' z)
  note outer = snoc
  show ?thesis
  proof (cases "z = CHR ''/''")
    case False
    with outer show ?thesis by (simp add: stripTrailingSlash_def)
  next
    case True
    show ?thesis
    proof (cases b' rule: rev_cases)
      case Nil
      with outer True show ?thesis by (simp add: stripTrailingSlash_def)
    next
      case (snoc b'' y)
      with outer True assms have "y \<noteq> CHR ''/''"
        by (auto simp: suffix_def)
      with snoc outer True show ?thesis
        by (simp add: stripTrailingSlash_def butlast_append)
    qed
  qed
qed

lemma stripLeadingSlash_content:
  assumes "\<not> prefix ''//'' p"
  shows "stripLeadingSlash p = dropWhile (\<lambda>ch. ch = CHR ''/'') p"
proof (cases p)
  case Nil
  then show ?thesis by (simp add: stripLeadingSlash_def)
next
  case (Cons z p')
  with assms show ?thesis
    by (cases p') (auto simp: stripLeadingSlash_def)
qed

lemma dropWhile_slash_head: "\<not> prefix ''/'' (dropWhile (\<lambda>ch. ch = CHR ''/'') p)"
proof
  assume "prefix ''/'' (dropWhile (\<lambda>ch. ch = CHR ''/'') p)"
  then obtain ys where "dropWhile (\<lambda>ch. ch = CHR ''/'') p = CHR ''/'' # ys"
    by (auto simp: prefix_def)
  then have h: "hd (dropWhile (\<lambda>ch. ch = CHR ''/'') p) = CHR ''/''"
    and n: "dropWhile (\<lambda>ch. ch = CHR ''/'') p \<noteq> []"
    by simp_all
  from n have "\<not> (\<lambda>ch. ch = CHR ''/'') (hd (dropWhile (\<lambda>ch. ch = CHR ''/'') p))"
    by (rule hd_dropWhile)
  with h show False by simp
qed

lemma baseContent_no_trailing_slash: "\<not> suffix ''/'' (baseContent base)"
proof
  assume "suffix ''/'' (baseContent base)"
  then have "prefix (rev ''/'') (rev (baseContent base))"
    by (simp only: suffix_to_prefix)
  then have "prefix ''/'' (dropWhile (\<lambda>ch. ch = CHR ''/'') (rev (case base of None \<Rightarrow> [] | Some b \<Rightarrow> b)))"
    by (simp add: baseContent_def)
  then show False using dropWhile_slash_head by blast
qed

text \<open>
  C2, as the claim states it, fails: a base that ends in two slashes keeps one of them,
  and the URL has two slashes where base and path meet.
\<close>

theorem joinUrl_many_slashes_counterexample:
  "joinUrl (Some ''https://api.test//'') ''/v1/x'' = ''https://api.test//v1/x''
   \<and> specJoinedUrl (Some ''https://api.test//'') ''/v1/x'' = ''https://api.test/v1/x''
   \<and> joinUrl (Some ''https://api.test//'') ''/v1/x''
       \<noteq> specJoinedUrl (Some ''https://api.test//'') ''/v1/x''"
  by (simp add: joinUrl_def specJoinedUrl_def baseContent_def pathContent_def
      stripTrailingSlash_def stripLeadingSlash_def)

text \<open>
  C2, amended: for a base URL (null counting as the empty string) that ends in at most
  one slash and a path that begins with at most one slash, the URL that \<open>execute\<close>
  composes before it appends the query string is the content of the base, one slash, and
  the content of the path; the content of the base does not end in a slash and the content
  of the path does not begin with one. The URL of the assembled request is that URL with
  the query string appended.
\<close>

theorem joinUrl_single_slash:
  assumes "\<not> suffix ''//'' (case baseUrl c of None \<Rightarrow> [] | Some b \<Rightarrow> b)"
    and "\<not> prefix ''//'' path"
  shows "joinUrl (baseUrl c) path = specJoinedUrl (baseUrl c) path
    \<and> \<not> suffix ''/'' (baseContent (baseUrl c))
    \<and> \<not> prefix ''/'' (pathContent path)
    \<and> url (assembleRequest c path ps bd options)
        = withQuery (specJoinedUrl (baseUrl c) path) (paramsSerializer c ps)"
proof -
  have j: "joinUrl (baseUrl c) path = specJoinedUrl (baseUrl c) path"
    using assms
    by (simp add: joinUrl_def specJoinedUrl_def baseContent_def pathContent_def
        stripTrailingSlash_content stripLeadingSlash_content)
  have u: "url (assembleRequest c path ps bd options)
      = withQuery (joinUrl (baseUrl c) path) (paramsSerializer c ps)"
    by (simp add: assembleRequest_def Let_def)
  have p: "\<not> prefix ''/'' (pathContent path)"
    unfolding pathContent_def by (rule dropWhile_slash_head)
  from j u p baseContent_no_trailing_slash show ?thesis by simp
qed

theorem joinUrl_single_slash_witness:
  "\<not> suffix ''//'' (case baseUrl sampleFetcher of None \<Rightarrow> [] | Some b \<Rightarrow> b)
   \<and> \<not> prefix ''//'' ''/v1/x''
   \<and> joinUrl (baseUrl sampleFetcher) ''/v1/x'' = ''https://api.test/v1/x''
   \<and> specJoinedUrl (baseUrl sampleFetcher) ''/v1/x'' = ''https://api.test/v1/x''
   \<and> url (assembleRequest sampleFetcher ''/v1/x'' [(''q'', ''1'')] None None)
       = ''https://api.test/v1/x?q=1''"
proof -
  have a: "\<not> suffix ''//'' (case baseUrl sampleFetcher of None \<Rightarrow> [] | Some b \<Rightarrow> b)"
    by (simp add: sampleFetcher_def suffix_to_prefix)
  have b: "\<not> prefix ''//'' ''/v1/x''"
    by simp
  have s: "specJoinedUrl (baseUrl sampleFetcher) ''/v1/x'' = ''https://api.test/v1/x''"
    by (simp add: specJoinedUrl_def baseContent_def pathContent_def sampleFetcher_def)
  from joinUrl_single_slash [OF a b, of "[(''q'', ''1'')]" None None] a b s show ?thesis
    by (simp add: withQuery_def sampleFetcher_def)
qed

section \<open>The choice of the decoding\<close>

text \<open>
  C6: when the response of \<open>fetch\<close> arrives, \<open>execute\<close> chooses the decoding of the
  body: an explicit \<open>responseType\<close> of JSON, FORM_DATA, TEXT, BLOB or ARRAY_BUFFER
  decodes in that form whatever the headers are; without one, a Content-Type header that
  contains \<open>json\<close> decodes as JSON, and anything else decodes as text.
\<close>

theorem decoding_selection:
  assumes "phase h = AwaitFetch"
  shows "phase (step c options (FetchResolves fr) h) =
     AwaitBody fr
       (case optional options responseType of
          Some JSON \<Rightarrow> AsJson
        | Some FORM_DATA \<Rightarrow> AsFormData
        | Some TEXT \<Rightarrow> AsText
        | Some BLOB \<Rightarrow> AsBlob
        | Some ARRAY_BUFFER \<Rightarrow> AsArrayBuffer
        | None \<Rightarrow>
            (if \<exists>ct. headersGet (fheaders fr) ''Content-Type'' = Some ct \<and> sublist ''json'' ct
             then AsJson else AsText))"
proof -
  have "chooseReader options (fheaders fr) =
       (case optional options responseType of
          Some JSON \<Rightarrow> AsJson
        | Some FORM_DATA \<Rightarrow> AsFormData
        | Some TEXT \<Rightarrow> AsText
        | Some BLOB \<Rightarrow> AsBlob
        | Some ARRAY_BUFFER \<Rightarrow> AsArrayBuffer
        | None \<Rightarrow>
            (if \<exists>ct. headersGet (fheaders fr) ''Content-Type'' = Some ct \<and> sublist ''json'' ct
             then AsJson else AsText))"
    by (simp add: chooseReader_def stringIncludes_def split: option.splits ResponseType.splits)
  with assms show ?thesis
    by (simp add: step_def clearTimer_def split: Timer.splits)
qed

theorem decoding_selection_witness:
  "phase sampleHandle = AwaitFetch
   \<and> phase (step sampleFetcher (Some \<lparr>optTimeout = None, optHeaders = None, responseType = Some BLOB\<rparr>)
        (FetchResolves (sampleResponse 200 True)) sampleHandle)
       = AwaitBody (sampleResponse 200 True) AsBlob
   \<and> phase (step sampleFetcher None (FetchResolves (sampleResponse 200 True)) sampleHandle)
       = AwaitBody (sampleResponse 200 True) AsJson
   \<and> phase (step sampleFetcher None
        (FetchResolves ((sampleResponse 200 True)\<lparr>fheaders := [(''Content-Type'', ''text/html'')]\<rparr>))
        sampleHandle)
       = AwaitBody ((sampleResponse 200 True)\<lparr>fheaders := [(''Content-Type'', ''text/html'')]\<rparr>) AsText"
proof -
  have a: "phase sampleHandle = AwaitFetch"
    by (simp add: sampleHandle_def newPromise_def)
  have g1: "headersGet (fheaders (sampleResponse 200 True)) ''Content-Type'' = Some ''application/json''"
    by (simp add: sampleResponse_def headersGet_def lowerChar_def)
  have g2: "headersGet [(''Content-Type'', ''text/html'')] ''Content-Type'' = Some ''text/html''"
    by (simp add: headersGet_def lowerChar_def)
  have s1: "sublist ''json'' ''application/json''"
    by (simp add: sublist_Cons_right)
  have s2: "\<not> sublist ''json'' ''text/html''"
    by (simp add: sublist_Cons_right)
  show ?thesis
    using a
      decoding_selection [OF a, of sampleFetcher
        "Some \<lparr>optTimeout = None, optHeaders = None, responseType = Some BLOB\<rparr>"
        "sampleResponse 200 True"]
      decoding_selection [OF a, of sampleFetcher None "sampleResponse 200 True"]
      decoding_selection [OF a, of sampleFetcher None
        "(sampleResponse 200 True)\<lparr>fheaders := [(''Content-Type'', ''text/html'')]\<rparr>"]
    by (simp add: optional_def g1 g2 s1 s2)
qed

section \<open>The request interceptors\<close>

lemma feed_simps:
  "feed (Returns request, w) f = f request w"
  "feed (Throws x, w) f = (Throws x, w)"
  by (simp_all add: feed_def)

lemma feed_Throws: "foldl feed (Throws x, w) fs = (Throws x, w)"
  by (induction fs) (simp_all add: feed_simps)

lemma foldRequest_foldl: "foldRequest fs request w = foldl feed (Returns request, w) fs"
proof (induction fs arbitrary: request w)
  case Nil
  show ?case by simp
next
  case (Cons f fs)
  show ?case
  proof (cases "f request w")
    case (Pair res w')
    then show ?thesis
      by (cases res) (simp_all add: Cons.IH feed_simps feed_Throws)
  qed
qed

lemma foldRequest_pure:
  "foldRequest (map pureInterceptor gs) request w = (Returns (foldl (\<lambda>r g. g r) request gs), w)"
  by (induction gs arbitrary: request) (simp_all add: pureInterceptor_def)

lemma execute_construct:
  "execute c method path ps bd options w =
     (case constructRequest c path ps bd options w of
        (Returns request, w') \<Rightarrow>
          Started (newPromise (effectiveTimeout c options) method request w')
      | (Throws x, w') \<Rightarrow> Threw (Raised x) w')"
  by (simp add: execute_def constructRequest_def preflight_def newAbortController_def Let_def
      split: prod.splits completion.splits)

text \<open>
  C4: \<open>execute\<close> folds the assembled request through the request interceptors from
  left to right, in the order of registration, the request returned by one being the
  argument of the next; the handle it returns has called \<open>fetch\<close> with the result of
  that fold (and \<open>execute\<close> throws what an interceptor threw, without a call of
  \<open>fetch\<close>). For interceptors that only compute the next request, the request that
  \<open>fetch\<close> receives is the plain left fold of their functions.
\<close>

theorem request_interceptors_fold:
  "execute c verb path ps bd options w =
     (case foldl feed (Returns (assembleRequest c path ps bd options), w) (requestInterceptors c) of
        (Returns request, w') \<Rightarrow>
          Started (newPromise (effectiveTimeout c options) verb request w')
      | (Throws x, w') \<Rightarrow> Threw (Raised x) w')
   \<and> (execute c verb path ps bd options w = Started h \<longrightarrow>
        foldl feed (Returns (assembleRequest c path ps bd options), w) (requestInterceptors c)
          = (Returns (fetchInit h), world h)
        \<and> fetchUrl h = url (fetchInit h))
   \<and> (requestInterceptors c = map pureInterceptor gs \<longrightarrow>
        (\<exists>h'. execute c verb path ps bd options w = Started h'
           \<and> fetchInit h' = foldl (\<lambda>r g. g r) (assembleRequest c path ps bd options) gs
           \<and> world h' = w))"
proof -
  have a: "execute c verb path ps bd options w =
     (case foldl feed (Returns (assembleRequest c path ps bd options), w) (requestInterceptors c) of
        (Returns request, w') \<Rightarrow>
          Started (newPromise (effectiveTimeout c options) verb request w')
      | (Throws x, w') \<Rightarrow> Threw (Raised x) w')"
    by (simp add: execute_construct constructRequest_def foldRequest_foldl)
  have b: "execute c verb path ps bd options w = Started h \<longrightarrow>
        foldl feed (Returns (assembleRequest c path ps bd options), w) (requestInterceptors c)
          = (Returns (fetchInit h), world h)
        \<and> fetchUrl h = url (fetchInit h)"
    unfolding a
    by (auto simp: newPromise_def split: prod.splits completion.splits)
  have c: "requestInterceptors c = map pureInterceptor gs \<longrightarrow>
        (\<exists>h'. execute c verb path ps bd options w = Started h'
           \<and> fetchInit h' = foldl (\<lambda>r g. g r) (assembleRequest c path ps bd options) gs
           \<and> world h' = w)"
    by (simp add: execute_construct constructRequest_def foldRequest_pure newPromise_def)
  from a b c show ?thesis
    by blast
qed

theorem request_interceptors_fold_witness:
  "requestInterceptors (sampleFetcher\<lparr>requestInterceptors := map pureInterceptor [addTag ''a'', addTag ''b'']\<rparr>)
     = map pureInterceptor [addTag ''a'', addTag ''b'']
   \<and> (\<exists>h. execute (sampleFetcher\<lparr>requestInterceptors := map pureInterceptor [addTag ''a'', addTag ''b'']\<rparr>)
            GET ''/v1/x'' [] None None [] = Started h
        \<and> headers (fetchInit h) = [(''X-Tag'', ''a''), (''X-Tag'', ''b'')]
        \<and> url (fetchInit h) = ''https://api.test/v1/x'')"
proof -
  let ?c = "sampleFetcher\<lparr>requestInterceptors := map pureInterceptor [addTag ''a'', addTag ''b'']\<rparr>"
  have p: "requestInterceptors ?c = map pureInterceptor [addTag ''a'', addTag ''b'']"
    by simp
  have "requestInterceptors ?c = map pureInterceptor [addTag ''a'', addTag ''b''] \<longrightarrow>
      (\<exists>h'. execute ?c GET ''/v1/x'' [] None None [] = Started h'
         \<and> fetchInit h' = foldl (\<lambda>r g. g r) (assembleRequest ?c ''/v1/x'' [] None None)
              [addTag ''a'', addTag ''b'']
         \<and> world h' = [])"
    by (rule request_interceptors_fold
      [where c = ?c and verb = GET and path = "''/v1/x''" and ps = "[]" and bd = None
        and options = None and w = "[]" and gs = "[addTag ''a'', addTag ''b'']",
        THEN conjunct2, THEN conjunct2])
  with p obtain h' where h: "execute ?c GET ''/v1/x'' [] None None [] = Started h'"
    and f: "fetchInit h' = foldl (\<lambda>r g. g r) (assembleRequest ?c ''/v1/x'' [] None None)
              [addTag ''a'', addTag ''b'']"
    by blast
  have "foldl (\<lambda>r g. g r) (assembleRequest ?c ''/v1/x'' [] None None) [addTag ''a'', addTag ''b'']
      = sampleRequest"
    by (simp add: sampleFetcher_def sampleRequest_def addTag_def assembleRequest_def optional_def
        joinUrl_def withQuery_def stripTrailingSlash_def stripLeadingSlash_def headersAppend_def)
  with f have "headers (fetchInit h') = [(''X-Tag'', ''a''), (''X-Tag'', ''b'')]"
    and "url (fetchInit h') = ''https://api.test/v1/x''"
    by (simp_all add: sampleRequest_def)
  with p h show ?thesis
    by blast
qed

section \<open>The check before the network call\<close>

text \<open>
  C9: had the signal been aborted at the check after the request interceptors,
  \<open>execute\<close> would throw the rejection \<open>canceled\<close> at once and issue no network
  call. The signal belongs to a controller made in the same call, which nothing aborts
  before the check: \<open>execute\<close> always runs the check on a signal that is not aborted,
  and never throws that rejection. The branch cannot be reached.
\<close>

theorem preflight_cancel_unreachable:
  "(preflight True t method request w :: ('p, 'b, 'd, 'x, 'w) Outcome) = Threw CanceledRejection w
   \<and> execute c method path ps bd options w =
       (case constructRequest c path ps bd options w of
          (Returns request', w') \<Rightarrow>
            preflight newAbortController (effectiveTimeout c options) method request' w'
        | (Throws x, w') \<Rightarrow> Threw (Raised x) w')
   \<and> newAbortController = False
   \<and> execute c method path ps bd options w \<noteq> Threw CanceledRejection w''"
proof -
  have "execute c method path ps bd options w \<noteq> Threw CanceledRejection w''"
    by (simp add: execute_construct split: prod.splits completion.splits)
  then show ?thesis
    by (simp add: preflight_def execute_def constructRequest_def newAbortController_def Let_def
        split: prod.splits completion.splits)
qed

section \<open>The timer at a timeout of zero\<close>

lemma negative_timeout_no_timer:
  assumes "t < 0"
  shows "timer (newPromise t method request w) = NoTimer"
    and "step c options TimerFires (newPromise t method request w) = newPromise t method request w"
  using assms by (simp_all add: newPromise_def step_def)

text \<open>
  C3, at the timeout 0: \<open>execute\<close> arms a timer of delay 0 (the test is
  \<open>timeout >= 0\<close>), and when that timer fires the signal is aborted and the handle is
  rejected with \<open>timeout\<close>. The timeout mechanism is not disabled at 0, against the
  claim and against the comment in the code. (For a negative timeout no timer is armed.)
\<close>

theorem zero_timeout_arms_timer:
  "execute (c\<lparr>timeout := 0, requestInterceptors := []\<rparr>) method path ps bd None w
     = Started (newPromise 0 method
         (assembleRequest (c\<lparr>timeout := 0, requestInterceptors := []\<rparr>) path ps bd None) w)
   \<and> timer (newPromise 0 method request w :: ('p, 'b, 'd, 'x, 'w) Handle) = Pending 0
   \<and> aborted (step c options TimerFires (newPromise 0 method request w))
   \<and> settled (step c options TimerFires (newPromise 0 method request w))
       = Some (Rejected (Reason (OfString ''timeout'')))"
  by (simp add: execute_def effectiveTimeout_def optional_def preflight_def
      newAbortController_def newPromise_def step_def onTimeout_def abort_def reject_def)

section \<open>The two variants of execute\<close>

lemma legacyAppendEach_eq: "legacyAppendEach k vs hs = appendEach k vs hs"
  by (induction vs arbitrary: hs) simp_all

lemma legacyBuildHeaders_eq: "legacyBuildHeaders entries hs = buildHeaders entries hs"
proof (induction entries arbitrary: hs)
  case Nil
  show ?case by simp
next
  case (Cons e entries)
  obtain k hv where e: "e = (k, hv)" by (cases e)
  show ?case
    by (cases hv) (simp_all add: e Cons.IH legacyAppendEach_eq)
qed

lemma legacyFoldRequest_eq: "legacyFoldRequest fs request w = foldRequest fs request w"
proof (induction fs arbitrary: request w)
  case Nil
  show ?case by simp
next
  case (Cons f fs)
  show ?case
    by (simp add: Cons.IH split: prod.splits completion.splits)
qed

text \<open>
  C10, as the claim states it, fails: the variants do not agree on everything that
  happens before the network call. With the default timeout of 30000 the current variant
  has armed a timer by the time it calls \<open>fetch\<close> and the earlier variant has armed
  none; with a timeout of -1 it is the other way round.
\<close>

theorem variants_timer_counterexample:
  "timersArmed (execute sampleFetcher GET ''/v1/x'' [] None None []) = [30000]
   \<and> legacyTimers (legacyExecute sampleFetcher ''/v1/x'' [] None None []) = []
   \<and> timersArmed (execute (sampleFetcher\<lparr>timeout := - 1\<rparr>) GET ''/v1/x'' [] None None []) = []
   \<and> legacyTimers (legacyExecute (sampleFetcher\<lparr>timeout := - 1\<rparr>) ''/v1/x'' [] None None [])
       = [- 1]"
  by (simp add: timersArmed_def legacyExecute_def sample_defs exec_defs)

text \<open>
  C10, amended: for every base URL, path, parameters, headers option, list of request
  interceptors and parameter serializer, the request construction of \<open>execute\<close> in
  src/index.ts (header expansion, joined URL with the query string, fold through the
  request interceptors) gives the same request, or the same thrown value, and the same
  effects of the interceptors as the earlier variant in src/unnamed/part_000; that request
  is the one the current variant calls \<open>fetch\<close> with. The agreement is on the request,
  not on the timers armed before the network call.
\<close>

theorem variants_same_request:
  "legacyRequest (legacyExecute c path ps bd options w) = constructRequest c path ps bd options w
   \<and> execute c method path ps bd options w =
       (case legacyRequest (legacyExecute c path ps bd options w) of
          (Returns request, w') \<Rightarrow>
            Started (newPromise (effectiveTimeout c options) method request w')
        | (Throws x, w') \<Rightarrow> Threw (Raised x) w')"
proof -
  have "legacyRequest (legacyExecute c path ps bd options w) = constructRequest c path ps bd options w"
    by (simp add: legacyExecute_def constructRequest_def assembleRequest_def Let_def
        legacyBuildHeaders_eq legacyFoldRequest_eq joinUrl_def withQuery_def)
  then show ?thesis
    by (simp add: execute_construct)
qed

section \<open>The observers: response and error interceptors\<close>

lemma forEachInterceptor_afterAll:
  "fst (forEachInterceptor fs v w) = None \<Longrightarrow>
     snd (forEachInterceptor fs v w) = afterAll fs v w"
proof (induction fs arbitrary: v w)
  case Nil
  show ?case by (simp add: afterAll_def)
next
  case (Cons f fs)
  obtain res v' w' where f: "f v w = (res, v', w')" by (cases "f v w")
  show ?case
  proof (cases res)
    case (Returns r)
    with f Cons.prems have "fst (forEachInterceptor fs v' w') = None" by simp
    then have "snd (forEachInterceptor fs v' w') = afterAll fs v' w'" by (rule Cons.IH)
    with f Returns show ?thesis by (simp add: afterAll_def)
  next
    case (Throws x)
    with f Cons.prems show ?thesis by simp
  qed
qed

lemma forEachInterceptor_replaceReturn:
  "forEachInterceptor (map (replaceReturn g) fs) v w = forEachInterceptor fs v w"
proof (induction fs arbitrary: v w)
  case Nil
  show ?case by simp
next
  case (Cons f fs)
  obtain res v' w' where f: "f v w = (res, v', w')" by (cases "f v w")
  have r: "replaceReturn g f v w =
      (case res of Returns r \<Rightarrow> (Returns (g v r), v', w') | Throws x \<Rightarrow> (Throws x, v', w'))"
    by (cases res) (simp_all add: replaceReturn_def f)
  show ?case
    by (cases res) (simp_all add: f r Cons.IH)
qed

lemma forEachInterceptor_unwritten:
  assumes "\<forall>f\<in>set fs. \<forall>v w. fst (snd (f v w)) = v"
  shows "fst (snd (forEachInterceptor fs v w)) = v"
  using assms
proof (induction fs arbitrary: w)
  case Nil
  show ?case by simp
next
  case (Cons f fs)
  obtain res v' w' where f: "f v w = (res, v', w')" by (cases "f v w")
  from Cons.prems have "fst (snd (f v w)) = v" by simp
  with f have v': "v' = v" by simp
  from Cons.prems have "\<forall>f\<in>set fs. \<forall>v w. fst (snd (f v w)) = v" by simp
  then have "fst (snd (forEachInterceptor fs v w')) = v" by (rule Cons.IH)
  with f v' show ?case by (cases res) simp_all
qed

lemma afterAll_unwritten:
  assumes "\<forall>f\<in>set fs. \<forall>v w. fst (snd (f v w)) = v"
  shows "fst (afterAll fs v w) = v"
  using assms
proof (induction fs arbitrary: w)
  case Nil
  show ?case by (simp add: afterAll_def)
next
  case (Cons f fs)
  from Cons.prems have "fst (snd (f v w)) = v" by simp
  then obtain w' where f: "snd (f v w) = (v, w')" by (cases "snd (f v w)") simp
  from Cons.prems have "\<forall>f\<in>set fs. \<forall>v w. fst (snd (f v w)) = v" by simp
  then have "fst (afterAll fs v w') = v" by (rule Cons.IH)
  with f show ?case by (simp add: afterAll_def)
qed

lemma onData_succeeded:
  assumes "succeeded fr" and "settled h = None"
    and "fst (forEachInterceptor (responseInterceptors c) (responseOf fr d) (world h)) = None"
  shows "onData c fr d h =
     h\<lparr>world := snd (afterAll (responseInterceptors c) (responseOf fr d) (world h)),
       settled := Some (Resolved (fst (afterAll (responseInterceptors c) (responseOf fr d) (world h))))\<rparr>"
proof -
  obtain e v' w' where r:
    "forEachInterceptor (responseInterceptors c) (responseOf fr d) (world h) = (e, v', w')"
    by (cases "forEachInterceptor (responseInterceptors c) (responseOf fr d) (world h)")
  with assms(3) have e: "e = None" by simp
  from forEachInterceptor_afterAll [OF assms(3)] r
  have a: "afterAll (responseInterceptors c) (responseOf fr d) (world h) = (v', w')" by simp
  from assms(1,2) r e show ?thesis
    by (simp add: onData_def resolve_def Let_def a)
qed

lemma onData_failed:
  assumes "\<not> succeeded fr" and "settled h = None"
    and "fst (forEachInterceptor (errorInterceptors c) (responseOf fr d) (world h)) = None"
  shows "onData c fr d h =
     h\<lparr>world := snd (afterAll (errorInterceptors c) (responseOf fr d) (world h)),
       settled := Some (Rejected (Reason (OfResponse
         (fst (afterAll (errorInterceptors c) (responseOf fr d) (world h))))))\<rparr>"
proof -
  obtain e v' w' where r:
    "forEachInterceptor (errorInterceptors c) (responseOf fr d) (world h) = (e, v', w')"
    by (cases "forEachInterceptor (errorInterceptors c) (responseOf fr d) (world h)")
  with assms(3) have e: "e = None" by simp
  from forEachInterceptor_afterAll [OF assms(3)] r
  have a: "afterAll (errorInterceptors c) (responseOf fr d) (world h) = (v', w')"
    by simp
  from assms(1,2) r e show ?thesis
    by (simp add: onData_def reject_def Let_def a)
qed

lemma step_BodySettles:
  assumes "phase h = AwaitBody fr reader" and "readBody fr reader = Returns d"
  shows "step c options BodySettles h = onData c fr d (h\<lparr>phase := Finished\<rparr>)"
  using assms by (simp add: step_def)

lemma onData_resolved:
  assumes "settled h = None" and "settled (onData c fr d h) = Some (Resolved r)"
  shows "succeeded fr
    \<and> fst (forEachInterceptor (responseInterceptors c) (responseOf fr d) (world h)) = None
    \<and> r = fst (afterAll (responseInterceptors c) (responseOf fr d) (world h))"
proof -
  from assms have s: "succeeded fr"
    by (auto simp: onData_def resolve_def reject_def Let_def split: prod.splits option.splits if_splits)
  from assms s have n: "fst (forEachInterceptor (responseInterceptors c) (responseOf fr d) (world h)) = None"
    by (auto simp: onData_def resolve_def reject_def Let_def split: prod.splits option.splits)
  from assms(2) show ?thesis
    by (simp add: onData_succeeded [OF s assms(1) n] s n)
qed

lemma onData_rejected_reason:
  assumes "settled h = None" and "settled (onData c fr d h) = Some (Rejected (Reason e))"
  shows "\<not> succeeded fr
    \<and> fst (forEachInterceptor (errorInterceptors c) (responseOf fr d) (world h)) = None
    \<and> e = OfResponse (fst (afterAll (errorInterceptors c) (responseOf fr d) (world h)))"
proof -
  from assms have s: "\<not> succeeded fr"
    by (auto simp: onData_def resolve_def reject_def Let_def split: prod.splits option.splits if_splits)
  from assms s
  have n: "fst (forEachInterceptor (errorInterceptors c) (responseOf fr d) (world h)) = None"
    by (auto simp: onData_def resolve_def reject_def Let_def split: prod.splits option.splits)
  from assms(2) show ?thesis
    by (simp add: onData_failed [OF s assms(1) n] s n)
qed

lemma sample_awaiting:
  "step c None (FetchResolves (sampleResponse s k)) sampleHandle =
     sampleHandle\<lparr>timer := Cleared, phase := AwaitBody (sampleResponse s k) AsJson\<rparr>"
  by (simp add: sample_defs step_defs optional_def newPromise_def)

lemma sample_awaiting_fields:
  "settled (step c None (FetchResolves (sampleResponse s k)) sampleHandle) = None"
  "world (step c None (FetchResolves (sampleResponse s k)) sampleHandle) = [''a'', ''b'']"
  "phase (step c None (FetchResolves (sampleResponse s k)) sampleHandle)
     = AwaitBody (sampleResponse s k) AsJson"
  "timer (step c None (FetchResolves (sampleResponse s k)) sampleHandle) = Cleared"
  by (simp_all only: sample_awaiting) (simp_all add: sampleHandle_def newPromise_def)

lemma sample_settles:
  "step c None BodySettles (step c None (FetchResolves (sampleResponse s k)) sampleHandle)
     = onData c (sampleResponse s k) ''{}''
         (sampleHandle\<lparr>timer := Cleared, phase := Finished\<rparr>)"
  by (simp only: sample_awaiting) (simp add: step_def sampleResponse_def sampleBody_def)

lemma sample_responseOf:
  "responseOf (sampleResponse s k) d =
     \<lparr>status = s, rheaders = [(''content-type'', ''application/json'')], data = d\<rparr>"
  by (simp add: responseOf_def sampleResponse_def)

text \<open>
  C1, as the claim states it, fails in two ways. At status 200 with the \<open>ok\<close> flag, a
  response interceptor that throws makes the handle reject with what was thrown: success
  of the transport and a status from 200 to 299 do not suffice for the handle to resolve.
  At status 404, error interceptors that write the status 200 to the ErrorResponse they
  are handed make the handle reject with an ErrorResponse of status 200.
\<close>

theorem settle_by_status_counterexample:
  "ok (sampleResponse 200 True) \<and> fstatus (sampleResponse 200 True) = 200
   \<and> settled (step (sampleFetcher\<lparr>responseInterceptors := [failWith ''boom'']\<rparr>) None BodySettles
        (step (sampleFetcher\<lparr>responseInterceptors := [failWith ''boom'']\<rparr>) None
          (FetchResolves (sampleResponse 200 True)) sampleHandle))
       = Some (Rejected (Fault ''boom''))
   \<and> fstatus (sampleResponse 404 False) = 404
   \<and> settled (step sampleWriter None BodySettles
        (step sampleWriter None (FetchResolves (sampleResponse 404 False)) sampleHandle))
       = Some (Rejected (Reason (OfResponse
           \<lparr>status = 200, rheaders = [(''content-type'', ''application/json'')],
            data = ''{}e1e2''\<rparr>)))"
  by (simp add: sample_settles)
    (simp add: sample_defs onData_def succeeded_def responseOf_def reject_def resolve_def
      newPromise_def)

text \<open>
  C1, amended: once the network call has completed and the body has been decoded, and
  provided the interceptors of the branch taken return, \<open>execute\<close> settles the handle by
  the status. With the \<open>ok\<close> flag and a status from 200 to 299, and only then, it resolves,
  with the Response built from that status, data and headers as the response interceptors
  have left it. Otherwise it builds the ErrorResponse of that status, data and headers,
  runs every error interceptor on it in the order of registration, each on the object as
  the one before has left it, and rejects with that ErrorResponse as they have left it.
  When the interceptors do not write to the object, the handle resolves with the Response
  of the transport's status, data and headers, respectively rejects with the ErrorResponse
  of them: status 404 then rejects with an ErrorResponse of status 404.
\<close>

theorem settle_by_status:
  assumes "phase h = AwaitBody fr reader"
    and "readBody fr reader = Returns d"
    and "settled h = None"
    and "succeeded fr \<Longrightarrow>
      fst (forEachInterceptor (responseInterceptors c) (responseOf fr d) (world h)) = None"
    and "\<not> succeeded fr \<Longrightarrow>
      fst (forEachInterceptor (errorInterceptors c) (responseOf fr d) (world h)) = None"
  shows "settled (step c options BodySettles h) =
      Some (if ok fr \<and> 200 \<le> fstatus fr \<and> fstatus fr < 300
            then Resolved (fst (afterAll (responseInterceptors c)
                   \<lparr>status = fstatus fr, rheaders = fheaders fr, data = d\<rparr> (world h)))
            else Rejected (Reason (OfResponse (fst (afterAll (errorInterceptors c)
                   \<lparr>status = fstatus fr, rheaders = fheaders fr, data = d\<rparr>
                   (world h))))))
    \<and> ((\<exists>r. settled (step c options BodySettles h) = Some (Resolved r))
          \<longleftrightarrow> (ok fr \<and> 200 \<le> fstatus fr \<and> fstatus fr < 300))
    \<and> world (step c options BodySettles h) =
        (if ok fr \<and> 200 \<le> fstatus fr \<and> fstatus fr < 300
         then snd (afterAll (responseInterceptors c) (responseOf fr d) (world h))
         else snd (afterAll (errorInterceptors c) (responseOf fr d) (world h)))
    \<and> ((\<forall>f\<in>set (responseInterceptors c). \<forall>v w. fst (snd (f v w)) = v)
        \<and> (\<forall>f\<in>set (errorInterceptors c). \<forall>v w. fst (snd (f v w)) = v) \<longrightarrow>
        settled (step c options BodySettles h) =
          Some (if ok fr \<and> 200 \<le> fstatus fr \<and> fstatus fr < 300
                then Resolved \<lparr>status = fstatus fr, rheaders = fheaders fr, data = d\<rparr>
                else Rejected (Reason (OfResponse
                       \<lparr>status = fstatus fr, rheaders = fheaders fr, data = d\<rparr>))))"
proof (cases "succeeded fr")
  case True
  then have k: "(ok fr \<and> 200 \<le> fstatus fr \<and> fstatus fr < 300) = True"
    by (auto simp: succeeded_def)
  from True assms(4)
  have "fst (forEachInterceptor (responseInterceptors c) (responseOf fr d)
      (world (h\<lparr>phase := Finished\<rparr>))) = None"
    by simp
  with True assms(3)
  have o: "onData c fr d (h\<lparr>phase := Finished\<rparr>) =
      h\<lparr>phase := Finished,
        world := snd (afterAll (responseInterceptors c) (responseOf fr d) (world h)),
        settled := Some (Resolved (fst (afterAll (responseInterceptors c) (responseOf fr d) (world h))))\<rparr>"
    by (simp add: onData_succeeded)
  have u: "(\<forall>f\<in>set (responseInterceptors c). \<forall>v w. fst (snd (f v w)) = v) \<longrightarrow>
      fst (afterAll (responseInterceptors c) (responseOf fr d) (world h)) = responseOf fr d"
    by (simp add: afterAll_unwritten)
  from o u show ?thesis
    by (simp only: step_BodySettles [OF assms(1,2)] k) (auto simp: responseOf_def)
next
  case False
  then have k: "(ok fr \<and> 200 \<le> fstatus fr \<and> fstatus fr < 300) = False"
    by (auto simp: succeeded_def)
  from False assms(5)
  have "fst (forEachInterceptor (errorInterceptors c) (responseOf fr d)
      (world (h\<lparr>phase := Finished\<rparr>))) = None"
    by simp
  with False assms(3)
  have o: "onData c fr d (h\<lparr>phase := Finished\<rparr>) =
      h\<lparr>phase := Finished,
        world := snd (afterAll (errorInterceptors c) (responseOf fr d) (world h)),
        settled := Some (Rejected (Reason (OfResponse
          (fst (afterAll (errorInterceptors c) (responseOf fr d) (world h))))))\<rparr>"
    by (simp add: onData_failed)
  have u: "(\<forall>f\<in>set (errorInterceptors c). \<forall>v w. fst (snd (f v w)) = v) \<longrightarrow>
      fst (afterAll (errorInterceptors c) (responseOf fr d) (world h)) = responseOf fr d"
    by (simp add: afterAll_unwritten)
  from o u show ?thesis
    by (simp only: step_BodySettles [OF assms(1,2)] k) (auto simp: responseOf_def)
qed

theorem settle_by_status_witness:
  "phase (step sampleFetcher None (FetchResolves (sampleResponse 404 False)) sampleHandle)
     = AwaitBody (sampleResponse 404 False) AsJson
   \<and> readBody (sampleResponse 404 False) AsJson = Returns ''{}''
   \<and> settled (step sampleFetcher None (FetchResolves (sampleResponse 404 False)) sampleHandle) = None
   \<and> \<not> succeeded (sampleResponse 404 False)
   \<and> fst (forEachInterceptor (errorInterceptors sampleFetcher)
        (responseOf (sampleResponse 404 False) ''{}'')
        (world (step sampleFetcher None (FetchResolves (sampleResponse 404 False)) sampleHandle)))
       = None
   \<and> settled (step sampleFetcher None BodySettles
        (step sampleFetcher None (FetchResolves (sampleResponse 404 False)) sampleHandle))
       = Some (Rejected (Reason (OfResponse
           \<lparr>status = 404, rheaders = [(''content-type'', ''application/json'')], data = ''{}''\<rparr>)))
   \<and> world (step sampleFetcher None BodySettles
        (step sampleFetcher None (FetchResolves (sampleResponse 404 False)) sampleHandle))
       = [''a'', ''b'', ''e1'', ''e2'']
   \<and> succeeded (sampleResponse 200 True)
   \<and> fst (forEachInterceptor (responseInterceptors sampleWriter)
        (responseOf (sampleResponse 200 True) ''{}'')
        (world (step sampleWriter None (FetchResolves (sampleResponse 200 True)) sampleHandle)))
       = None
   \<and> settled (step sampleWriter None BodySettles
        (step sampleWriter None (FetchResolves (sampleResponse 200 True)) sampleHandle))
       = Some (Resolved
           \<lparr>status = 201, rheaders = [(''content-type'', ''application/json'')],
            data = ''{}r1r2''\<rparr>)"
proof -
  let ?h = "step sampleFetcher None (FetchResolves (sampleResponse 404 False)) sampleHandle"
  let ?g = "step sampleWriter None (FetchResolves (sampleResponse 200 True)) sampleHandle"
  have p: "phase ?h = AwaitBody (sampleResponse 404 False) AsJson"
    and p': "phase ?g = AwaitBody (sampleResponse 200 True) AsJson"
    by (simp_all add: sample_awaiting_fields)
  have b: "readBody (sampleResponse 404 False) AsJson = Returns ''{}''"
    and b': "readBody (sampleResponse 200 True) AsJson = Returns ''{}''"
    by (simp_all add: sampleResponse_def sampleBody_def)
  have s: "settled ?h = None" and s': "settled ?g = None"
    by (simp_all add: sample_awaiting_fields)
  have n: "\<not> succeeded (sampleResponse 404 False)" and n': "succeeded (sampleResponse 200 True)"
    by (simp_all add: succeeded_def sampleResponse_def)
  have e: "fst (forEachInterceptor (errorInterceptors sampleFetcher)
        (responseOf (sampleResponse 404 False) ''{}'') (world ?h)) = None"
    by (simp add: sampleFetcher_def logAs_def)
  have e': "fst (forEachInterceptor (responseInterceptors sampleWriter)
        (responseOf (sampleResponse 200 True) ''{}'') (world ?g)) = None"
    by (simp add: sampleWriter_def writeResponse_def)
  have ro: "(\<forall>f\<in>set (responseInterceptors sampleFetcher). \<forall>v w. fst (snd (f v w)) = v)
      \<and> (\<forall>f\<in>set (errorInterceptors sampleFetcher). \<forall>v w. fst (snd (f v w)) = v)"
    by (simp add: sampleFetcher_def logAs_def)
  have w: "snd (afterAll (errorInterceptors sampleFetcher)
        (responseOf (sampleResponse 404 False) ''{}'') (world ?h))
      = [''a'', ''b'', ''e1'', ''e2'']"
    by (simp only: sample_awaiting_fields)
      (simp add: afterAll_def sampleFetcher_def logAs_def)
  have a': "fst (afterAll (responseInterceptors sampleWriter)
        \<lparr>status = 200, rheaders = [(''content-type'', ''application/json'')],
         data = ''{}''\<rparr> (world ?g))
      = \<lparr>status = 201, rheaders = [(''content-type'', ''application/json'')], data = ''{}r1r2''\<rparr>"
    by (simp only: sample_awaiting_fields)
      (simp add: afterAll_def sampleWriter_def writeResponse_def sampleResponse_def)
  have f: "fstatus (sampleResponse 404 False) = 404" "\<not> ok (sampleResponse 404 False)"
    "fheaders (sampleResponse 404 False) = [(''content-type'', ''application/json'')]"
    "fstatus (sampleResponse 200 True) = 200" "ok (sampleResponse 200 True)"
    "fheaders (sampleResponse 200 True) = [(''content-type'', ''application/json'')]"
    by (simp_all add: sampleResponse_def)
  note t = settle_by_status [of ?h "sampleResponse 404 False" AsJson "''{}''" sampleFetcher None,
      OF p b s]
  note t' = settle_by_status [of ?g "sampleResponse 200 True" AsJson "''{}''" sampleWriter None,
      OF p' b' s']
  have 1: "settled (step sampleFetcher None BodySettles ?h) =
      Some (Rejected (Reason (OfResponse
        \<lparr>status = 404, rheaders = [(''content-type'', ''application/json'')], data = ''{}''\<rparr>)))"
    using t [THEN conjunct2, THEN conjunct2, THEN conjunct2, THEN mp, OF _ _ ro] n e
    by (simp add: f)
  have 2: "world (step sampleFetcher None BodySettles ?h) = [''a'', ''b'', ''e1'', ''e2'']"
    using t [THEN conjunct2, THEN conjunct2, THEN conjunct1] n e
    by (simp add: f w)
  have 3: "settled (step sampleWriter None BodySettles ?g) =
      Some (Resolved
        \<lparr>status = 201, rheaders = [(''content-type'', ''application/json'')], data = ''{}r1r2''\<rparr>)"
    using t' [THEN conjunct1] n' e'
    by (simp add: f a')
  from p b s n e 1 2 n' e' 3 show ?thesis
    by (intro conjI)
qed

lemma onData_replaceReturn:
  "onData (c\<lparr>responseInterceptors := map (replaceReturn g) (responseInterceptors c),
              errorInterceptors := map (replaceReturn g') (errorInterceptors c)\<rparr>) fr d h
     = onData c fr d h"
  by (simp add: onData_def forEachInterceptor_replaceReturn)

lemma step_replaceReturn:
  "step (c\<lparr>responseInterceptors := map (replaceReturn g) (responseInterceptors c),
            errorInterceptors := map (replaceReturn g') (errorInterceptors c)\<rparr>) options ev h
     = step c options ev h"
  by (simp add: step_def onData_replaceReturn
      split: Event.splits Phase.splits completion.splits)

text \<open>
  C5, as the claim states it, fails: the value the handle resolves with need not be the
  value built from the transport's result. Two response interceptors that write the status
  201 to the Response and add their names to its data make the handle resolve, on a
  response of status 200 with data \<open>{}\<close>, with a Response of status 201 and data
  \<open>{}r1r2\<close>.
\<close>

theorem interceptor_writes_counterexample:
  "responseOf (sampleResponse 200 True) ''{}''
     = \<lparr>status = 200, rheaders = [(''content-type'', ''application/json'')], data = ''{}''\<rparr>
   \<and> settled (step sampleWriter None BodySettles
        (step sampleWriter None (FetchResolves (sampleResponse 200 True)) sampleHandle))
       = Some (Resolved
           \<lparr>status = 201, rheaders = [(''content-type'', ''application/json'')],
            data = ''{}r1r2''\<rparr>)
   \<and> settled (step sampleWriter None BodySettles
        (step sampleWriter None (FetchResolves (sampleResponse 200 True)) sampleHandle))
       \<noteq> Some (Resolved (responseOf (sampleResponse 200 True) ''{}''))"
  by (simp add: sample_settles sample_responseOf)
    (simp add: sample_defs onData_def succeeded_def responseOf_def reject_def resolve_def
      newPromise_def)

text \<open>
  C5, amended: the response interceptors and the error interceptors are called in the
  order of registration for their effects only, and what they return is discarded:
  replacing the returned values by any others changes nothing in what \<open>execute\<close> does.
  The Response the handle resolves with, respectively the ErrorResponse it rejects with,
  is the object built from the status, data and headers of the transport's result as the
  interceptors have left it, each interceptor having run on the object and the world that
  the one before has left; it is never taken from what an interceptor returns. When no
  interceptor writes to the object, it is the value built from the transport's result.
\<close>

theorem interceptor_returns_discarded:
  "step (c\<lparr>responseInterceptors := map (replaceReturn g) (responseInterceptors c),
            errorInterceptors := map (replaceReturn g') (errorInterceptors c)\<rparr>) options ev h
     = step c options ev h
   \<and> (phase h = AwaitBody fr reader \<and> readBody fr reader = Returns d \<and> settled h = None \<longrightarrow>
        (\<forall>r. settled (step c options BodySettles h) = Some (Resolved r) \<longrightarrow>
              r = fst (afterAll (responseInterceptors c)
                    \<lparr>status = fstatus fr, rheaders = fheaders fr, data = d\<rparr> (world h)))
      \<and> (\<forall>e. settled (step c options BodySettles h) = Some (Rejected (Reason e)) \<longrightarrow>
              e = OfResponse (fst (afterAll (errorInterceptors c)
                    \<lparr>status = fstatus fr, rheaders = fheaders fr, data = d\<rparr> (world h))))
      \<and> (succeeded fr
            \<and> fst (forEachInterceptor (responseInterceptors c) (responseOf fr d) (world h)) = None \<longrightarrow>
          settled (step c options BodySettles h)
              = Some (Resolved (fst (afterAll (responseInterceptors c) (responseOf fr d) (world h))))
          \<and> world (step c options BodySettles h)
              = snd (afterAll (responseInterceptors c) (responseOf fr d) (world h)))
      \<and> (\<not> succeeded fr
            \<and> fst (forEachInterceptor (errorInterceptors c) (responseOf fr d) (world h))
                = None \<longrightarrow>
          settled (step c options BodySettles h)
              = Some (Rejected (Reason (OfResponse
                  (fst (afterAll (errorInterceptors c) (responseOf fr d) (world h))))))
          \<and> world (step c options BodySettles h)
              = snd (afterAll (errorInterceptors c) (responseOf fr d) (world h)))
      \<and> ((\<forall>f\<in>set (responseInterceptors c). \<forall>v w. fst (snd (f v w)) = v) \<longrightarrow>
          (\<forall>r. settled (step c options BodySettles h) = Some (Resolved r) \<longrightarrow>
                r = \<lparr>status = fstatus fr, rheaders = fheaders fr, data = d\<rparr>))
      \<and> ((\<forall>f\<in>set (errorInterceptors c). \<forall>v w. fst (snd (f v w)) = v) \<longrightarrow>
          (\<forall>e. settled (step c options BodySettles h) = Some (Rejected (Reason e)) \<longrightarrow>
                e = OfResponse \<lparr>status = fstatus fr, rheaders = fheaders fr, data = d\<rparr>)))"
  (is "?indep \<and> (?pre \<longrightarrow> ?res \<and> ?rej \<and> ?ok \<and> ?bad \<and> ?resU \<and> ?rejU)")
proof -
  have "?pre \<longrightarrow> ?res \<and> ?rej \<and> ?ok \<and> ?bad \<and> ?resU \<and> ?rejU"
  proof (intro impI, elim conjE)
    assume p: "phase h = AwaitBody fr reader" and b: "readBody fr reader = Returns d"
      and s: "settled h = None"
    let ?h = "h\<lparr>phase := Finished\<rparr>"
    have st: "step c options BodySettles h = onData c fr d ?h"
      using p b by (rule step_BodySettles)
    have s': "settled ?h = None" using s by simp
    have 1: ?res
      unfolding st using onData_resolved [OF s', of c fr d] by (auto simp: responseOf_def)
    have 2: ?rej
      unfolding st using onData_rejected_reason [OF s', of c fr d] by (auto simp: responseOf_def)
    have 3: ?ok
      unfolding st using s' by (simp add: onData_succeeded)
    have 4: ?bad
      unfolding st using s' by (simp add: onData_failed)
    have 5: ?resU
      using 1 by (auto simp: afterAll_unwritten)
    have 6: ?rejU
      using 2 by (auto simp: afterAll_unwritten)
    from 1 2 3 4 5 6 show "?res \<and> ?rej \<and> ?ok \<and> ?bad \<and> ?resU \<and> ?rejU"
      by (intro conjI)
  qed
  then show ?thesis
    by (rule conjI [OF step_replaceReturn])
qed

theorem interceptor_returns_discarded_witness:
  "step (sampleWriter
          \<lparr>responseInterceptors :=
             map (replaceReturn (\<lambda>v r. r\<lparr>data := ''other''\<rparr>)) (responseInterceptors sampleWriter),
           errorInterceptors :=
             map (replaceReturn (\<lambda>v r. r\<lparr>data := ''other''\<rparr>)) (errorInterceptors sampleWriter)\<rparr>)
      None BodySettles
      (step sampleWriter None (FetchResolves (sampleResponse 200 True)) sampleHandle)
     = step sampleWriter None BodySettles
        (step sampleWriter None (FetchResolves (sampleResponse 200 True)) sampleHandle)
   \<and> phase (step sampleWriter None (FetchResolves (sampleResponse 200 True)) sampleHandle)
       = AwaitBody (sampleResponse 200 True) AsJson
   \<and> readBody (sampleResponse 200 True) AsJson = Returns ''{}''
   \<and> settled (step sampleWriter None (FetchResolves (sampleResponse 200 True)) sampleHandle) = None
   \<and> succeeded (sampleResponse 200 True)
   \<and> fst (forEachInterceptor (responseInterceptors sampleWriter)
        (responseOf (sampleResponse 200 True) ''{}'')
        (world (step sampleWriter None (FetchResolves (sampleResponse 200 True)) sampleHandle)))
       = None
   \<and> settled (step sampleWriter None BodySettles
        (step sampleWriter None (FetchResolves (sampleResponse 200 True)) sampleHandle))
       = Some (Resolved
           \<lparr>status = 201, rheaders = [(''content-type'', ''application/json'')],
            data = ''{}r1r2''\<rparr>)
   \<and> world (step sampleWriter None BodySettles
        (step sampleWriter None (FetchResolves (sampleResponse 200 True)) sampleHandle))
       = [''a'', ''b'', ''r1'', ''r2'']
   \<and> phase (step sampleFetcher None (FetchResolves (sampleResponse 404 False)) sampleHandle)
       = AwaitBody (sampleResponse 404 False) AsJson
   \<and> settled (step sampleFetcher None (FetchResolves (sampleResponse 404 False)) sampleHandle) = None
   \<and> \<not> succeeded (sampleResponse 404 False)
   \<and> fst (forEachInterceptor (errorInterceptors sampleFetcher)
        (responseOf (sampleResponse 404 False) ''{}'')
        (world (step sampleFetcher None (FetchResolves (sampleResponse 404 False)) sampleHandle)))
       = None
   \<and> settled (step sampleFetcher None BodySettles
        (step sampleFetcher None (FetchResolves (sampleResponse 404 False)) sampleHandle))
       = Some (Rejected (Reason (OfResponse
           \<lparr>status = 404, rheaders = [(''content-type'', ''application/json'')], data = ''{}''\<rparr>)))
   \<and> world (step sampleFetcher None BodySettles
        (step sampleFetcher None (FetchResolves (sampleResponse 404 False)) sampleHandle))
       = [''a'', ''b'', ''e1'', ''e2'']"
proof -
  let ?g = "step sampleWriter None (FetchResolves (sampleResponse 200 True)) sampleHandle"
  let ?h = "step sampleFetcher None (FetchResolves (sampleResponse 404 False)) sampleHandle"
  let ?k = "\<lambda>(v :: string Response) (r :: string Response). r\<lparr>data := ''other''\<rparr>"
  let ?k' = "\<lambda>(v :: string Response) (r :: string Response). r\<lparr>data := ''other''\<rparr>"
  note inst = interceptor_returns_discarded
    [where c = sampleWriter and g = ?k and g' = ?k' and options = None and ev = BodySettles
      and h = ?g and fr = "sampleResponse 200 True" and reader = AsJson and d = "''{}''"]
  note inst' = interceptor_returns_discarded
    [where c = sampleFetcher and g = ?k and g' = ?k' and options = None and ev = BodySettles
      and h = ?h and fr = "sampleResponse 404 False" and reader = AsJson and d = "''{}''"]
  have p: "phase ?g = AwaitBody (sampleResponse 200 True) AsJson"
    and p': "phase ?h = AwaitBody (sampleResponse 404 False) AsJson"
    by (simp_all add: sample_awaiting_fields)
  have b: "readBody (sampleResponse 200 True) AsJson = Returns ''{}''"
    and b': "readBody (sampleResponse 404 False) AsJson = Returns ''{}''"
    by (simp_all add: sampleResponse_def sampleBody_def)
  have s: "settled ?g = None" and s': "settled ?h = None"
    by (simp_all add: sample_awaiting_fields)
  have k: "succeeded (sampleResponse 200 True)" and k': "\<not> succeeded (sampleResponse 404 False)"
    by (simp_all add: succeeded_def sampleResponse_def)
  have e: "fst (forEachInterceptor (responseInterceptors sampleWriter)
        (responseOf (sampleResponse 200 True) ''{}'') (world ?g)) = None"
    by (simp add: sampleWriter_def writeResponse_def)
  have e': "fst (forEachInterceptor (errorInterceptors sampleFetcher)
        (responseOf (sampleResponse 404 False) ''{}'') (world ?h)) = None"
    by (simp add: sampleFetcher_def logAs_def)
  have a: "afterAll (responseInterceptors sampleWriter)
        (responseOf (sampleResponse 200 True) ''{}'') (world ?g)
      = (\<lparr>status = 201, rheaders = [(''content-type'', ''application/json'')], data = ''{}r1r2''\<rparr>,
         [''a'', ''b'', ''r1'', ''r2''])"
    by (simp only: sample_awaiting_fields sample_responseOf)
      (simp add: afterAll_def sampleWriter_def writeResponse_def)
  have a': "snd (afterAll (errorInterceptors sampleFetcher)
        (responseOf (sampleResponse 404 False) ''{}'') (world ?h))
      = [''a'', ''b'', ''e1'', ''e2'']"
    by (simp only: sample_awaiting_fields sample_responseOf)
      (simp add: afterAll_def sampleFetcher_def logAs_def)
  have ro: "\<forall>f\<in>set (errorInterceptors sampleFetcher). \<forall>v w. fst (snd (f v w)) = v"
    by (simp add: sampleFetcher_def logAs_def)
  have f: "fstatus (sampleResponse 404 False) = 404"
    "fheaders (sampleResponse 404 False) = [(''content-type'', ''application/json'')]"
    by (simp_all add: sampleResponse_def)
  from inst have 1: "step (sampleWriter
          \<lparr>responseInterceptors := map (replaceReturn ?k) (responseInterceptors sampleWriter),
           errorInterceptors := map (replaceReturn ?k') (errorInterceptors sampleWriter)\<rparr>)
      None BodySettles ?g = step sampleWriter None BodySettles ?g"
    by (rule conjunct1)
  note body = inst [THEN conjunct2, THEN mp, OF conjI [OF p conjI [OF b s]]]
  note body' = inst' [THEN conjunct2, THEN mp, OF conjI [OF p' conjI [OF b' s']]]
  from body [THEN conjunct2, THEN conjunct2, THEN conjunct1, THEN mp, OF conjI [OF k e]]
  have 2: "settled (step sampleWriter None BodySettles ?g) = Some (Resolved
        \<lparr>status = 201, rheaders = [(''content-type'', ''application/json'')], data = ''{}r1r2''\<rparr>)"
    and 3: "world (step sampleWriter None BodySettles ?g) = [''a'', ''b'', ''r1'', ''r2'']"
    by (simp_all only: a fst_conv snd_conv)
  from body' [THEN conjunct2, THEN conjunct2, THEN conjunct2, THEN conjunct1, THEN mp,
      OF conjI [OF k' e']]
  have 4: "settled (step sampleFetcher None BodySettles ?h) = Some (Rejected (Reason
        (OfResponse (fst (afterAll (errorInterceptors sampleFetcher)
          (responseOf (sampleResponse 404 False) ''{}'') (world ?h))))))"
    and 5: "world (step sampleFetcher None BodySettles ?h) = [''a'', ''b'', ''e1'', ''e2'']"
    by (simp_all only: a')
  from body' [THEN conjunct2, THEN conjunct2, THEN conjunct2, THEN conjunct2, THEN conjunct2,
      THEN mp, OF ro, rule_format, OF 4]
  have "OfResponse (fst (afterAll (errorInterceptors sampleFetcher)
          (responseOf (sampleResponse 404 False) ''{}'') (world ?h)))
      = OfResponse
          \<lparr>status = 404, rheaders = [(''content-type'', ''application/json'')], data = ''{}''\<rparr>"
    by (simp only: f)
  with 4 have 6: "settled (step sampleFetcher None BodySettles ?h) = Some (Rejected (Reason
        (OfResponse
          \<lparr>status = 404, rheaders = [(''content-type'', ''application/json'')], data = ''{}''\<rparr>)))"
    by simp
  from 1 p b s k e 2 3 p' s' k' e' 6 5 show ?thesis
    by (intro conjI)
qed

section \<open>Faults of the transport and of the decoding\<close>

lemma onData_errorInterceptors_unused:
  "succeeded fr \<Longrightarrow> onData (c\<lparr>errorInterceptors := es\<rparr>) fr d h = onData c fr d h"
  by (simp add: onData_def)

text \<open>
  C7: when the network call fails, and when the decoding of the body fails, \<open>execute\<close>
  rejects the handle with the fault itself and no interceptor has had an effect. Only a
  decoded body with a status classified as a failure reaches the error interceptors: in
  every other event, what \<open>execute\<close> does is the same whatever error interceptors are
  registered.
\<close>

theorem faults_bypass_error_interceptors:
  "(phase h = AwaitFetch \<and> settled h = None \<longrightarrow>
      settled (step c options (FetchRejects x) h) = Some (Rejected (Fault x))
      \<and> world (step c options (FetchRejects x) h) = world h)
   \<and> (phase h = AwaitBody fr reader \<and> readBody fr reader = Throws x \<and> settled h = None \<longrightarrow>
      settled (step c options BodySettles h) = Some (Rejected (Fault x))
      \<and> world (step c options BodySettles h) = world h)
   \<and> (\<not> (ev = BodySettles
          \<and> (\<exists>fr' reader' d. phase h = AwaitBody fr' reader' \<and> readBody fr' reader' = Returns d
                \<and> \<not> succeeded fr')) \<longrightarrow>
      step (c\<lparr>errorInterceptors := es\<rparr>) options ev h = step c options ev h)"
proof -
  have 1: "phase h = AwaitFetch \<and> settled h = None \<longrightarrow>
      settled (step c options (FetchRejects x) h) = Some (Rejected (Fault x))
      \<and> world (step c options (FetchRejects x) h) = world h"
    by (simp add: step_def reject_def clearTimer_def split: Timer.splits)
  have 2: "phase h = AwaitBody fr reader \<and> readBody fr reader = Throws x \<and> settled h = None \<longrightarrow>
      settled (step c options BodySettles h) = Some (Rejected (Fault x))
      \<and> world (step c options BodySettles h) = world h"
    by (simp add: step_def reject_def)
  have 3: "\<not> (ev = BodySettles
          \<and> (\<exists>fr' reader' d. phase h = AwaitBody fr' reader' \<and> readBody fr' reader' = Returns d
                \<and> \<not> succeeded fr')) \<longrightarrow>
      step (c\<lparr>errorInterceptors := es\<rparr>) options ev h = step c options ev h"
  proof (cases ev)
    case BodySettles
    show ?thesis
    proof (cases "phase h")
      case (AwaitBody fr' reader')
      show ?thesis
      proof (cases "readBody fr' reader'")
        case (Returns d)
        with BodySettles AwaitBody show ?thesis
          by (auto simp: step_def onData_errorInterceptors_unused)
      next
        case (Throws y)
        with BodySettles AwaitBody show ?thesis
          by (simp add: step_def)
      qed
    qed (simp_all add: step_def BodySettles)
  qed (simp_all add: step_def)
  from 1 2 3 show ?thesis
    by (intro conjI)
qed

lemma sample_awaiting_form:
  "step sampleFetcher (Some \<lparr>optTimeout = None, optHeaders = None, responseType = Some FORM_DATA\<rparr>)
     (FetchResolves (sampleResponse 500 False)) sampleHandle
   = sampleHandle\<lparr>timer := Cleared, phase := AwaitBody (sampleResponse 500 False) AsFormData\<rparr>"
  by (simp add: sample_defs step_defs optional_def newPromise_def)

theorem faults_bypass_error_interceptors_witness:
  "phase sampleHandle = AwaitFetch \<and> settled sampleHandle = None
   \<and> settled (step sampleFetcher None (FetchRejects ''NetworkError'') sampleHandle)
       = Some (Rejected (Fault ''NetworkError''))
   \<and> world (step sampleFetcher None (FetchRejects ''NetworkError'') sampleHandle) = [''a'', ''b'']
   \<and> step (sampleFetcher\<lparr>errorInterceptors := [failWith ''boom'']\<rparr>) None
        (FetchRejects ''NetworkError'') sampleHandle
       = step sampleFetcher None (FetchRejects ''NetworkError'') sampleHandle
   \<and> phase (step sampleFetcher
          (Some \<lparr>optTimeout = None, optHeaders = None, responseType = Some FORM_DATA\<rparr>)
          (FetchResolves (sampleResponse 500 False)) sampleHandle)
       = AwaitBody (sampleResponse 500 False) AsFormData
   \<and> readBody (sampleResponse 500 False) AsFormData = Throws ''TypeError''
   \<and> settled (step sampleFetcher
          (Some \<lparr>optTimeout = None, optHeaders = None, responseType = Some FORM_DATA\<rparr>)
          BodySettles
          (step sampleFetcher
            (Some \<lparr>optTimeout = None, optHeaders = None, responseType = Some FORM_DATA\<rparr>)
            (FetchResolves (sampleResponse 500 False)) sampleHandle))
       = Some (Rejected (Fault ''TypeError''))
   \<and> world (step sampleFetcher
          (Some \<lparr>optTimeout = None, optHeaders = None, responseType = Some FORM_DATA\<rparr>)
          BodySettles
          (step sampleFetcher
            (Some \<lparr>optTimeout = None, optHeaders = None, responseType = Some FORM_DATA\<rparr>)
            (FetchResolves (sampleResponse 500 False)) sampleHandle))
       = [''a'', ''b'']"
proof -
  let ?o = "Some \<lparr>optTimeout = None, optHeaders = None, responseType = Some FORM_DATA\<rparr>"
  let ?h = "step sampleFetcher ?o (FetchResolves (sampleResponse 500 False)) sampleHandle"
  note inst = faults_bypass_error_interceptors
    [where h = sampleHandle and c = sampleFetcher and options = None and x = "''NetworkError''"
      and ev = "FetchRejects ''NetworkError''" and es = "[failWith ''boom'']"
      and fr = "sampleResponse 500 False" and reader = AsFormData]
  note inst' = faults_bypass_error_interceptors
    [where h = ?h and c = sampleFetcher and options = ?o and x = "''TypeError''"
      and ev = Cancel and es = "[]"
      and fr = "sampleResponse 500 False" and reader = AsFormData]
  have p: "phase sampleHandle = AwaitFetch" and s: "settled sampleHandle = None"
    and w: "world sampleHandle = [''a'', ''b'']"
    by (simp_all add: sampleHandle_def newPromise_def)
  have e: "\<not> (FetchRejects ''NetworkError'' = (BodySettles :: (string, string) Event)
          \<and> (\<exists>fr' reader' d. phase sampleHandle = AwaitBody fr' reader'
                \<and> readBody fr' reader' = Returns d \<and> \<not> succeeded fr'))"
    by simp
  have p': "phase ?h = AwaitBody (sampleResponse 500 False) AsFormData"
    and s': "settled ?h = None" and w': "world ?h = [''a'', ''b'']"
    by (simp_all only: sample_awaiting_form) (simp_all add: sampleHandle_def newPromise_def)
  have b': "readBody (sampleResponse 500 False) AsFormData = Throws ''TypeError''"
    by (simp add: sampleResponse_def sampleBody_def)
  from inst p s have "settled (step sampleFetcher None (FetchRejects ''NetworkError'') sampleHandle)
       = Some (Rejected (Fault ''NetworkError''))
      \<and> world (step sampleFetcher None (FetchRejects ''NetworkError'') sampleHandle)
          = world sampleHandle"
    by blast
  moreover from inst e have "step (sampleFetcher\<lparr>errorInterceptors := [failWith ''boom'']\<rparr>) None
        (FetchRejects ''NetworkError'') sampleHandle
       = step sampleFetcher None (FetchRejects ''NetworkError'') sampleHandle"
    by blast
  moreover from inst' p' b' s' have "settled (step sampleFetcher ?o BodySettles ?h)
       = Some (Rejected (Fault ''TypeError''))
      \<and> world (step sampleFetcher ?o BodySettles ?h) = world ?h"
    by blast
  ultimately show ?thesis
    using p s w p' b' w' by simp
qed

section \<open>Cancelling\<close>

lemma consistent_newPromise: "consistent (newPromise t method request w)"
  by (simp add: consistent_def newPromise_def)

lemma consistent_step:
  assumes "consistent h"
  shows "consistent (step c options ev h)"
proof (cases ev)
  case TimerFires
  with assms show ?thesis
    by (auto simp: consistent_def step_def onTimeout_def abort_def reject_def
        split: Timer.splits if_splits)
next
  case Cancel
  with assms show ?thesis
    by (auto simp: consistent_def step_def onCancel_def abort_def clearTimer_def
        split: Timer.splits if_splits)
next
  case (FetchResolves fr)
  with assms show ?thesis
    by (auto simp: consistent_def step_def clearTimer_def split: Timer.splits Phase.splits if_splits)
next
  case (FetchRejects x)
  with assms show ?thesis
    by (auto simp: consistent_def step_def clearTimer_def reject_def
        split: Timer.splits Phase.splits if_splits)
next
  case BodySettles
  with assms show ?thesis
    by (auto simp: consistent_def step_def onData_def resolve_def reject_def Let_def
        split: Timer.splits Phase.splits completion.splits prod.splits option.splits if_splits)
qed

lemma consistent_run: "consistent h \<Longrightarrow> consistent (run c options evs h)"
proof (induction evs arbitrary: h)
  case Nil
  then show ?case by (simp add: run_def)
next
  case (Cons ev evs)
  from Cons.prems have "consistent (step c options ev h)" by (rule consistent_step)
  then have "consistent (run c options evs (step c options ev h))" by (rule Cons.IH)
  then show ?case by (simp add: run_def)
qed

lemma disarmed_step:
  assumes "disarmed h"
  shows "disarmed (step c options ev h)"
proof (cases ev)
  case TimerFires
  with assms show ?thesis
    by (auto simp: disarmed_def step_def split: Timer.splits)
next
  case Cancel
  with assms show ?thesis
    by (auto simp: disarmed_def step_def)
next
  case (FetchResolves fr)
  with assms show ?thesis
    by (auto simp: disarmed_def step_def clearTimer_def split: Timer.splits Phase.splits)
next
  case (FetchRejects x)
  with assms show ?thesis
    by (auto simp: disarmed_def step_def clearTimer_def reject_def
        split: Timer.splits Phase.splits if_splits)
next
  case BodySettles
  with assms show ?thesis
    by (auto simp: disarmed_def step_def onData_def resolve_def reject_def Let_def
        split: Timer.splits Phase.splits completion.splits prod.splits option.splits if_splits)
qed

lemma disarmed_run: "disarmed h \<Longrightarrow> disarmed (run c options evs h)"
proof (induction evs arbitrary: h)
  case Nil
  then show ?case by (simp add: run_def)
next
  case (Cons ev evs)
  from Cons.prems have "disarmed (step c options ev h)" by (rule disarmed_step)
  then have "disarmed (run c options evs (step c options ev h))" by (rule Cons.IH)
  then show ?case by (simp add: run_def)
qed

lemma cancel_disarms:
  assumes "consistent h" and "settled h = None"
  shows "disarmed (step c options Cancel h)"
  using assms
  by (auto simp: consistent_def disarmed_def step_def onCancel_def abort_def clearTimer_def
      split: Timer.splits if_splits)

lemma started_consistent:
  assumes "execute c method path ps bd options w = Started h0"
  shows "consistent h0"
proof -
  from assms obtain t request w' where "h0 = newPromise t method request w'"
    by (auto simp: execute_construct split: prod.splits completion.splits)
  then show ?thesis by (simp add: consistent_newPromise)
qed

text \<open>
  C8: take a handle that \<open>execute\<close> has returned, at any moment of its life at which it
  has not settled. Cancelling it then leaves the signal aborted, with \<open>abort\<close> called
  exactly once in all, and clears the timer if it was pending. Whatever happens
  afterwards, \<open>abort\<close> is not called again, the timer neither is pending nor fires, and
  the handle is never rejected with \<open>timeout\<close>.
\<close>

theorem cancel_aborts_once_and_disarms:
  assumes "execute c method path ps bd options w = Started h0"
    and "h = run c options evs h0"
    and "settled h = None"
  shows "aborted (step c options Cancel h)
    \<and> abortCalls (step c options Cancel h) = 1
    \<and> (\<forall>t. timer h = Pending t \<longrightarrow> timer (step c options Cancel h) = Cleared)
    \<and> (\<forall>evs'. abortCalls (run c options evs' (step c options Cancel h)) = 1
          \<and> timer (run c options evs' (step c options Cancel h)) \<noteq> Fired
          \<and> (\<forall>t. timer (run c options evs' (step c options Cancel h)) \<noteq> Pending t)
          \<and> settled (run c options evs' (step c options Cancel h))
              \<noteq> Some (Rejected (Reason (OfString ''timeout''))))"
proof -
  from assms(1) have "consistent h0" by (rule started_consistent)
  then have k: "consistent h" unfolding assms(2) by (rule consistent_run)
  from k assms(3) have d: "disarmed (step c options Cancel h)" by (rule cancel_disarms)
  have a: "aborted (step c options Cancel h)" and n: "abortCalls (step c options Cancel h) = 1"
    using d by (simp_all add: disarmed_def)
  have t: "\<forall>t. timer h = Pending t \<longrightarrow> timer (step c options Cancel h) = Cleared"
    using k by (auto simp: consistent_def step_def onCancel_def abort_def clearTimer_def)
  have r: "\<forall>evs'. abortCalls (run c options evs' (step c options Cancel h)) = 1
          \<and> timer (run c options evs' (step c options Cancel h)) \<noteq> Fired
          \<and> (\<forall>t. timer (run c options evs' (step c options Cancel h)) \<noteq> Pending t)
          \<and> settled (run c options evs' (step c options Cancel h))
              \<noteq> Some (Rejected (Reason (OfString ''timeout'')))"
  proof
    fix evs'
    from d have "disarmed (run c options evs' (step c options Cancel h))" by (rule disarmed_run)
    then show "abortCalls (run c options evs' (step c options Cancel h)) = 1
          \<and> timer (run c options evs' (step c options Cancel h)) \<noteq> Fired
          \<and> (\<forall>t. timer (run c options evs' (step c options Cancel h)) \<noteq> Pending t)
          \<and> settled (run c options evs' (step c options Cancel h))
              \<noteq> Some (Rejected (Reason (OfString ''timeout'')))"
      by (auto simp: disarmed_def split: Timer.splits)
  qed
  from a n t r show ?thesis by (intro conjI)
qed

theorem cancel_aborts_once_and_disarms_witness:
  "execute sampleFetcher GET ''/v1/x'' [] None None [] = Started sampleHandle
   \<and> sampleHandle = run sampleFetcher None [] sampleHandle
   \<and> settled sampleHandle = None
   \<and> timer sampleHandle = Pending 30000
   \<and> aborted (step sampleFetcher None Cancel sampleHandle)
   \<and> abortCalls (step sampleFetcher None Cancel sampleHandle) = 1
   \<and> timer (step sampleFetcher None Cancel sampleHandle) = Cleared
   \<and> abortCalls (run sampleFetcher None [TimerFires, Cancel, FetchRejects ''AbortError'']
        (step sampleFetcher None Cancel sampleHandle)) = 1
   \<and> settled (run sampleFetcher None [TimerFires, Cancel, FetchRejects ''AbortError'']
        (step sampleFetcher None Cancel sampleHandle)) = Some (Rejected (Fault ''AbortError''))"
proof -
  have e: "execute sampleFetcher GET ''/v1/x'' [] None None [] = Started sampleHandle"
    by (rule execute_sample)
  have r: "sampleHandle = run sampleFetcher None [] sampleHandle"
    by (simp add: run_def)
  have s: "settled sampleHandle = None" and t: "timer sampleHandle = Pending 30000"
    by (simp_all add: sampleHandle_def newPromise_def)
  note inst = cancel_aborts_once_and_disarms [OF e r s]
  have f: "settled (run sampleFetcher None [TimerFires, Cancel, FetchRejects ''AbortError'']
        (step sampleFetcher None Cancel sampleHandle)) = Some (Rejected (Fault ''AbortError''))"
    by (simp add: run_def sampleHandle_def newPromise_def step_def onCancel_def abort_def
        clearTimer_def reject_def)
  from inst t have "aborted (step sampleFetcher None Cancel sampleHandle)"
    and "abortCalls (step sampleFetcher None Cancel sampleHandle) = 1"
    and "timer (step sampleFetcher None Cancel sampleHandle) = Cleared"
    and "abortCalls (run sampleFetcher None [TimerFires, Cancel, FetchRejects ''AbortError'']
        (step sampleFetcher None Cancel sampleHandle)) = 1"
    by blast+
  with e r s t f show ?thesis
    by (intro conjI)
qed

end
